theory Spec2Isabelle
  imports Complex_Main "HOL-Library.Sublist"
begin

text \<open>
  A model of \<open>goodreads_scraper.py\<close>: the field extractor \<open>_extract_book_info\<close>, the
  entry locator and the pagination loop of \<open>scrape_read_books\<close> and
  \<open>scrape_currently_reading\<close>, \<open>scrape_profile\<close>, \<open>save_to_csv\<close>, the author ranking
  of \<open>print_books_summary\<close>, and the sequence of calls of \<open>main\<close>. The parsed page, the
  answers of the network and of the file system, and the library functions that the
  scraper calls are inputs of the model.
\<close>

section \<open>Strings, regular expressions and integers as the scraper uses them\<close>

text \<open>
  A character is one of the 256 code points below \<open>U+0100\<close>; a text with other characters
  is outside the model. Among these, \<open>str.strip()\<close> removes the white space below and
  \<open>\d\<close> matches the ten ASCII digits.
\<close>

definition is_space :: "char \<Rightarrow> bool" where
  "is_space c = (c \<in> set [CHR '' '', CHR 0x09, CHR 0x0A, CHR 0x0B, CHR 0x0C, CHR 0x0D,
                           CHR 0x1C, CHR 0x1D, CHR 0x1E, CHR 0x1F, CHR 0x85, CHR 0xA0])"

definition is_digit :: "char \<Rightarrow> bool" where
  "is_digit c = (c \<in> set ''0123456789'')"

definition strip :: "string \<Rightarrow> string" where
  "strip s = rev (dropWhile is_space (rev (dropWhile is_space s)))"

text \<open>\<open>' '.join(xs)\<close>\<close>

fun join_space :: "string list \<Rightarrow> string" where
  "join_space [] = []"
| "join_space [x] = x"
| "join_space (x # y # ys) = x @ '' '' @ join_space (y # ys)"

text \<open>\<open>re.compile(pat).search(s)\<close> for a pattern without metacharacters.\<close>

fun contains :: "string \<Rightarrow> string \<Rightarrow> bool" where
  "contains pat [] = (pat = [])"
| "contains pat (c # cs) = (prefix pat (c # cs) \<or> contains pat cs)"

text \<open>\<open>re.search(r'(\d{4})', s)\<close>: group 1 of the leftmost match, if any.\<close>

fun search_d4 :: "string \<Rightarrow> string option" where
  "search_d4 [] = None"
| "search_d4 (c # cs) =
     (if 4 \<le> length (c # cs) \<and> list_all is_digit (take 4 (c # cs))
      then Some (take 4 (c # cs)) else search_d4 cs)"

text \<open>\<open>re.search(r'(\d+)', s)\<close>: the leftmost, longest run of digits, if any.\<close>

definition search_digits :: "string \<Rightarrow> string option" where
  "search_digits s =
     (case dropWhile (\<lambda>c. \<not> is_digit c) s of
        [] \<Rightarrow> None
      | d # ds \<Rightarrow> Some (takeWhile is_digit (d # ds)))"

datatype exn = ValueError string | RequestException string | OSError string

definition digit_val :: "char \<Rightarrow> int" where
  "digit_val c = int (of_char c) - 48"

text \<open>
  \<open>int(s)\<close> on a run of digits. CPython refuses a decimal string of more than
  4300 digits (\<open>sys.int_info.default_max_str_digits\<close>) with a \<open>ValueError\<close>.
\<close>

definition int_max_str_digits :: nat where
  "int_max_str_digits = 4300"

definition py_int :: "string \<Rightarrow> exn + int" where
  "py_int ds =
     (if int_max_str_digits < length ds
      then Inl (ValueError ''Exceeds the limit (4300 digits) for integer string conversion'')
      else Inr (foldl (\<lambda>a c. 10 * a + digit_val c) 0 ds))"

text \<open>\<open>str(n)\<close> for an integer.\<close>

definition digit_char :: "nat \<Rightarrow> char" where
  "digit_char d = char_of (48 + d)"

fun str_nat :: "nat \<Rightarrow> string" where
  "str_nat n = (if n < 10 then [digit_char n] else str_nat (n div 10) @ [digit_char (n mod 10)])"

definition str_int :: "int \<Rightarrow> string" where
  "str_int i = (if i < 0 then CHR ''-'' # str_nat (nat (- i)) else str_nat (nat i))"

section \<open>The parsed page\<close>

text \<open>
  A node of the tree that the HTML parser returns: a string, or a tag with its name, its
  \<open>class\<close> attribute (a list of tokens, absent when the tag has none), its \<open>href\<close>
  attribute and its children. The scraper reads no other attribute.

  The parser gives every string a class. \<open>Text\<close> is a string of the class
  \<open>NavigableString\<close> itself or a \<open>CData\<close> section. \<open>Special\<close> is a string of any other
  class: a comment, a declaration, a doctype, a processing instruction, and the text that
  stands inside a \<open>script\<close>, \<open>style\<close>, \<open>template\<close>, \<open>rt\<close> or \<open>rp\<close> tag.
\<close>

datatype node =
    Text string
  | Special string
  | Elem (el_name: string) (el_class: "string list option") (el_href: "string option")
         (el_kids: "node list")

fun is_elem :: "node \<Rightarrow> bool" where
  "is_elem (Text s) = False"
| "is_elem (Special s) = False"
| "is_elem (Elem n c h ks) = True"

text \<open>The descendants of a node in document order, the node itself excluded.\<close>

fun descendants :: "node \<Rightarrow> node list" where
  "descendants (Text s) = []"
| "descendants (Special s) = []"
| "descendants (Elem n c h ks) = concat (map (\<lambda>k. k # descendants k) ks)"

text \<open>
  The strings that \<open>get_text\<close> joins, for a tag that is not itself one of \<open>script\<close>,
  \<open>style\<close>, \<open>template\<close>, \<open>rt\<close>, \<open>rp\<close>: those of the classes \<open>NavigableString\<close> and
  \<open>CData\<close> among its descendants. The scraper calls \<open>get_text\<close> on tags named \<open>a\<close>,
  \<open>div\<close>, \<open>h1\<close> and \<open>span\<close> only.
\<close>

fun strings :: "node \<Rightarrow> string list" where
  "strings (Text s) = [s]"
| "strings (Special s) = []"
| "strings (Elem n c h ks) = concat (map strings ks)"

text \<open>\<open>tag.get_text(strip=True)\<close>: every string stripped, the empty ones dropped.\<close>

definition get_text_strip :: "node \<Rightarrow> string" where
  "get_text_strip nd = concat (filter (\<lambda>s. s \<noteq> []) (map strip (strings nd)))"

text \<open>
  \<open>class_='...'\<close> with a string: one token of the class attribute is that string, or the
  tokens joined by single spaces are.
\<close>

fun class_is :: "string \<Rightarrow> node \<Rightarrow> bool" where
  "class_is s (Text t) = False"
| "class_is s (Special t) = False"
| "class_is s (Elem n None h ks) = False"
| "class_is s (Elem n (Some cs) h ks) = (s \<in> set cs \<or> join_space cs = s)"

text \<open>\<open>class_=re.compile(r'book|item|entry')\<close>\<close>

definition book_item_entry :: "string \<Rightarrow> bool" where
  "book_item_entry s = (contains ''book'' s \<or> contains ''item'' s \<or> contains ''entry'' s)"

fun class_book_item_entry :: "node \<Rightarrow> bool" where
  "class_book_item_entry (Text t) = False"
| "class_book_item_entry (Special t) = False"
| "class_book_item_entry (Elem n None h ks) = False"
| "class_book_item_entry (Elem n (Some cs) h ks) =
     (list_ex book_item_entry cs \<or> book_item_entry (join_space cs))"

text \<open>\<open>href=re.compile(r'/book/show/')\<close>\<close>

fun href_book_show :: "node \<Rightarrow> bool" where
  "href_book_show (Text t) = False"
| "href_book_show (Special t) = False"
| "href_book_show (Elem n c None ks) = False"
| "href_book_show (Elem n c (Some h) ks) = contains ''/book/show/'' h"

definition any_node :: "node \<Rightarrow> bool" where
  "any_node nd = True"

text \<open>\<open>tag.find_all(name, ...)\<close> and \<open>tag.find(name, ...)\<close>\<close>

definition find_all :: "string \<Rightarrow> (node \<Rightarrow> bool) \<Rightarrow> node \<Rightarrow> node list" where
  "find_all nm P nd = filter (\<lambda>d. is_elem d \<and> el_name d = nm \<and> P d) (descendants nd)"

definition find_first :: "string \<Rightarrow> (node \<Rightarrow> bool) \<Rightarrow> node \<Rightarrow> node option" where
  "find_first nm P nd = (case find_all nm P nd of [] \<Rightarrow> None | d # ds \<Rightarrow> Some d)"

text \<open>\<open>tag.get('href', '')\<close>\<close>

fun href_or_empty :: "node \<Rightarrow> string" where
  "href_or_empty (Text t) = []"
| "href_or_empty (Special t) = []"
| "href_or_empty (Elem n c None ks) = []"
| "href_or_empty (Elem n c (Some h) ks) = h"

section \<open>The book record and the outside world\<close>

text \<open>
  The dictionary \<open>book_info\<close> has a fixed set of keys, each with one type of value; a key
  that was never assigned is \<open>None\<close>. The type \<open>'f\<close> stands for Python's \<open>float\<close>.
\<close>

record 'f book =
  title :: "string option"
  author :: "string option"
  publish_date :: "string option"
  isbn :: "string option"
  rating :: "int option"
  avg_rating :: "'f option"
  pages :: "int option"
  book_url :: "string option"
  author_url :: "string option"
  shelf :: "string option"

definition empty_book :: "'f book" where
  "empty_book = \<lparr>title = None, author = None, publish_date = None, isbn = None,
     rating = None, avg_rating = None, pages = None, book_url = None, author_url = None,
     shelf = None\<rparr>"

text \<open>
  The answer of the server to a request, as \<open>session.get\<close> returns it after following
  redirections: the status, its reason phrase, the address that answered, and the content,
  given as the tree that the parser makes of it.
\<close>

record response =
  status_code :: int
  reason_phrase :: string
  final_url :: string
  parsed_content :: node

text \<open>
  What the scraper calls and does not define: \<open>urllib.parse.urljoin\<close> (it raises
  \<open>ValueError\<close> on some malformed references), \<open>float\<close> on a string (\<open>None\<close> stands for
  its \<open>ValueError\<close>), \<open>prettify\<close>, \<open>session.get\<close> (an exception, which is a
  \<open>RequestException\<close> when the transport fails, or the answer of the server), and the
  file system: \<open>open(name, 'w')\<close>, the write number \<open>k\<close> to the file of that name,
  counted from 0, and the closing of the file (each \<open>Some e\<close> when it raises \<open>e\<close>).
\<close>

record 'f env =
  urljoin :: "string \<Rightarrow> string \<Rightarrow> exn + string"
  py_float :: "string \<Rightarrow> 'f option"
  prettify :: "node \<Rightarrow> string"
  session_get :: "string \<Rightarrow> exn + response"
  fopen :: "string \<Rightarrow> exn option"
  fwrite :: "string \<Rightarrow> nat \<Rightarrow> exn option"
  fclose :: "string \<Rightarrow> exn option"

text \<open>
  \<open>response.raise_for_status()\<close> of the \<open>requests\<close> library: an \<open>HTTPError\<close>, which is
  a \<open>RequestException\<close>, for a status from 400 to 599, and nothing for any other status.
\<close>

definition raise_for_status :: "response \<Rightarrow> exn option" where
  "raise_for_status r =
     (if 400 \<le> status_code r \<and> status_code r < 500
      then Some (RequestException (str_int (status_code r) @ '' Client Error: ''
                   @ reason_phrase r @ '' for url: '' @ final_url r))
      else if 500 \<le> status_code r \<and> status_code r < 600
      then Some (RequestException (str_int (status_code r) @ '' Server Error: ''
                   @ reason_phrase r @ '' for url: '' @ final_url r))
      else None)"

text \<open>
  The three lines that fetch a page: \<open>session.get\<close>, \<open>raise_for_status\<close>, and the
  parser on the content.
\<close>

definition http_get :: "'f env \<Rightarrow> string \<Rightarrow> exn + node" where
  "http_get E url =
     (case session_get E url of
        Inl e \<Rightarrow> Inl e
      | Inr response \<Rightarrow>
          (case raise_for_status response of
             Some e \<Rightarrow> Inl e
           | None \<Rightarrow> Inr (parsed_content response)))"

definition base_url :: string where
  "base_url = ''https://www.goodreads.com''"

section \<open>The field extractor\<close>

text \<open>The title cell's first link: its text and its resolved target.\<close>

definition set_title :: "'f env \<Rightarrow> node \<Rightarrow> 'f book \<Rightarrow> exn + 'f book" where
  "set_title E entry b =
     (case find_first ''td'' (class_is ''field title'') entry of
        None \<Rightarrow> Inr b
      | Some title_elem \<Rightarrow>
          (case find_first ''a'' any_node title_elem of
             None \<Rightarrow> Inr b
           | Some title_link \<Rightarrow>
               (case urljoin E base_url (href_or_empty title_link) of
                  Inl x \<Rightarrow> Inl x
                | Inr u \<Rightarrow> Inr (b\<lparr>title := Some (get_text_strip title_link),
                                   book_url := Some u\<rparr>))))"

definition set_author :: "'f env \<Rightarrow> node \<Rightarrow> 'f book \<Rightarrow> exn + 'f book" where
  "set_author E entry b =
     (case find_first ''td'' (class_is ''field author'') entry of
        None \<Rightarrow> Inr b
      | Some author_elem \<Rightarrow>
          (case find_first ''a'' any_node author_elem of
             None \<Rightarrow> Inr b
           | Some author_link \<Rightarrow>
               (case urljoin E base_url (href_or_empty author_link) of
                  Inl x \<Rightarrow> Inl x
                | Inr u \<Rightarrow> Inr (b\<lparr>author := Some (get_text_strip author_link),
                                   author_url := Some u\<rparr>))))"

text \<open>
  The text of the \<open>div\<close> of class \<open>value\<close> in the cell of the given class, when both
  exist.
\<close>

definition value_elem :: "string \<Rightarrow> node \<Rightarrow> node option" where
  "value_elem field entry =
     (case find_first ''td'' (class_is field) entry of
        None \<Rightarrow> None
      | Some cell \<Rightarrow> find_first ''div'' (class_is ''value'') cell)"

definition set_isbn :: "node \<Rightarrow> 'f book \<Rightarrow> 'f book" where
  "set_isbn entry b =
     (case value_elem ''field isbn'' entry of
        None \<Rightarrow> b
      | Some isbn_value \<Rightarrow>
          (let isbn_text = get_text_strip isbn_value
           in if isbn_text \<noteq> [] \<and> isbn_text \<noteq> ''None'' then b\<lparr>isbn := Some isbn_text\<rparr>
              else b))"

definition set_publish_date :: "node \<Rightarrow> 'f book \<Rightarrow> 'f book" where
  "set_publish_date entry b =
     (case value_elem ''field date_pub'' entry of
        None \<Rightarrow> b
      | Some pub_date_value \<Rightarrow>
          (let pub_date_text = get_text_strip pub_date_value
           in if pub_date_text \<noteq> [] \<and> pub_date_text \<noteq> ''None''
              then (case search_d4 pub_date_text of
                      Some year \<Rightarrow> b\<lparr>publish_date := Some year\<rparr>
                    | None \<Rightarrow> b\<lparr>publish_date := Some pub_date_text\<rparr>)
              else b))"

text \<open>\<open>'p10' in star.get('class', [])\<close>\<close>

fun has_p10 :: "node \<Rightarrow> bool" where
  "has_p10 (Text t) = False"
| "has_p10 (Special t) = False"
| "has_p10 (Elem n None h ks) = False"
| "has_p10 (Elem n (Some cs) h ks) = (''p10'' \<in> set cs)"

definition set_rating :: "node \<Rightarrow> 'f book \<Rightarrow> 'f book" where
  "set_rating entry b =
     (case value_elem ''field rating'' entry of
        None \<Rightarrow> b
      | Some rating_value \<Rightarrow>
          (let static_stars = find_all ''span'' (class_is ''staticStar'') rating_value
           in if static_stars \<noteq> []
              then (let filled_stars = int (length (filter has_p10 static_stars))
                    in if 0 < filled_stars then b\<lparr>rating := Some filled_stars\<rparr> else b)
              else b))"

definition set_avg_rating :: "'f env \<Rightarrow> node \<Rightarrow> 'f book \<Rightarrow> 'f book" where
  "set_avg_rating E entry b =
     (case value_elem ''field avg_rating'' entry of
        None \<Rightarrow> b
      | Some avg_rating_value \<Rightarrow>
          (let avg_rating_text = get_text_strip avg_rating_value
           in if avg_rating_text \<noteq> [] \<and> avg_rating_text \<noteq> ''None''
              then (case py_float E avg_rating_text of
                      Some x \<Rightarrow> b\<lparr>avg_rating := Some x\<rparr>
                    | None \<Rightarrow> b)
              else b))"

definition set_pages :: "node \<Rightarrow> 'f book \<Rightarrow> exn + 'f book" where
  "set_pages entry b =
     (case value_elem ''field num_pages'' entry of
        None \<Rightarrow> Inr b
      | Some pages_value \<Rightarrow>
          (let pages_text = get_text_strip pages_value
           in if pages_text \<noteq> [] \<and> pages_text \<noteq> ''None''
              then (case search_digits pages_text of
                      None \<Rightarrow> Inr b
                    | Some ds \<Rightarrow>
                        (case py_int ds of
                           Inl x \<Rightarrow> Inl x
                         | Inr n \<Rightarrow> Inr (b\<lparr>pages := Some n\<rparr>)))
              else Inr b))"

text \<open>The body of the \<open>try\<close> block, up to the \<open>return\<close>.\<close>

definition extract_fields :: "'f env \<Rightarrow> node \<Rightarrow> exn + 'f book" where
  "extract_fields E entry =
     (case set_title E entry empty_book of
        Inl x \<Rightarrow> Inl x
      | Inr b1 \<Rightarrow>
          (case set_author E entry b1 of
             Inl x \<Rightarrow> Inl x
           | Inr b2 \<Rightarrow>
               set_pages entry
                 (set_avg_rating E entry (set_rating entry (set_publish_date entry
                   (set_isbn entry b2))))))"

text \<open>\<open>book_info.get('title')\<close> as a condition: the key is set and its string is not empty.\<close>

definition truthy :: "string option \<Rightarrow> bool" where
  "truthy v = (case v of None \<Rightarrow> False | Some s \<Rightarrow> s \<noteq> [])"

text \<open>
  \<open>_extract_book_info\<close>: any exception of the body is caught and gives \<open>None\<close>, as a
  record without a title does.
\<close>

definition extract_book_info :: "'f env \<Rightarrow> node \<Rightarrow> 'f book option" where
  "extract_book_info E entry =
     (case extract_fields E entry of
        Inl x \<Rightarrow> None
      | Inr b \<Rightarrow> if truthy (title b) then Some b else None)"

section \<open>Effects\<close>

text \<open>
  What a run does to the outside world, in order: a request sent, a search of the entry
  locator run over the page, a file written, a pause of one second, a line printed.
  Console lines are recorded for the exporter and for the author ranking only; the
  progress lines of the other functions are left out.
\<close>

datatype scan = Bookalike_rows | Table_rows | Book_divs

datatype 'f cell = CStr string | CInt int | CFloat 'f

datatype 'f event =
    Http_get string
  | Scan scan
  | File_write string string
  | Csv_write string "'f cell list list"
  | Sleep
  | Print string

text \<open>\<open>str(e)\<close>\<close>

fun exn_str :: "exn \<Rightarrow> string" where
  "exn_str (ValueError m) = m"
| "exn_str (RequestException m) = m"
| "exn_str (OSError m) = m"

fun is_request_exception :: "exn \<Rightarrow> bool" where
  "is_request_exception (RequestException m) = True"
| "is_request_exception (ValueError m) = False"
| "is_request_exception (OSError m) = False"

section \<open>The entry locator\<close>

definition strategy1 :: "node \<Rightarrow> node list" where
  "strategy1 soup = find_all ''tr'' (class_is ''bookalike'') soup"

definition strategy2 :: "node \<Rightarrow> node list" where
  "strategy2 soup =
     filter (\<lambda>row. find_first ''a'' href_book_show row \<noteq> None) (find_all ''tr'' any_node soup)"

definition strategy3 :: "node \<Rightarrow> node list" where
  "strategy3 soup =
     filter (\<lambda>d. find_first ''a'' href_book_show d \<noteq> None)
       (find_all ''div'' class_book_item_entry soup)"

text \<open>
  Lines 107 to 130 of \<open>scrape_read_books\<close> (210 to 229 of \<open>scrape_currently_reading\<close>
  are the same): the entries found, and the searches that ran to find them.
\<close>

definition locate_entries :: "node \<Rightarrow> scan list \<times> node list" where
  "locate_entries soup =
     (let book_entries = strategy1 soup
      in if book_entries \<noteq> [] then ([Bookalike_rows], book_entries)
         else (let book_entries = strategy2 soup
               in if book_entries \<noteq> [] then ([Bookalike_rows, Table_rows], book_entries)
                  else ([Bookalike_rows, Table_rows, Book_divs], strategy3 soup)))"

section \<open>The pager\<close>

datatype shelf_kind = Read_shelf | Currently_reading_shelf

fun shelf_name :: "shelf_kind \<Rightarrow> string" where
  "shelf_name Read_shelf = ''read''"
| "shelf_name Currently_reading_shelf = ''currently-reading''"

definition get_profile_url :: "string \<Rightarrow> string" where
  "get_profile_url username = base_url @ ''/user/show/'' @ username"

definition get_read_books_url :: "string \<Rightarrow> int \<Rightarrow> string" where
  "get_read_books_url username page =
     base_url @ ''/review/list/'' @ username @ ''?shelf=read&page='' @ str_int page"

definition get_currently_reading_url :: "string \<Rightarrow> int \<Rightarrow> string" where
  "get_currently_reading_url username page =
     base_url @ ''/review/list/'' @ username @ ''?shelf=currently-reading&page='' @ str_int page"

fun shelf_url :: "shelf_kind \<Rightarrow> string \<Rightarrow> int \<Rightarrow> string" where
  "shelf_url Read_shelf username page = get_read_books_url username page"
| "shelf_url Currently_reading_shelf username page = get_currently_reading_url username page"

fun debug_file :: "shelf_kind \<Rightarrow> string \<Rightarrow> string" where
  "debug_file Read_shelf username = ''debug_page_'' @ username @ ''.html''"
| "debug_file Currently_reading_shelf username =
     ''debug_currently_reading_'' @ username @ ''.html''"

text \<open>The records of one page: each entry's record, tagged with the shelf, when it has one.\<close>

definition extract_page :: "'f env \<Rightarrow> shelf_kind \<Rightarrow> node list \<Rightarrow> 'f book list" where
  "extract_page E sh book_entries =
     List.map_filter
       (\<lambda>entry. map_option (\<lambda>book_info. book_info\<lparr>shelf := Some (shelf_name sh)\<rparr>)
                  (extract_book_info E entry))
       book_entries"

text \<open>
  The debug file of page 1: \<open>open\<close>, one write, and the closing of the file at the end
  of the \<open>with\<close> block. Each of them may raise, and no handler of the loop catches
  what they raise. When \<open>open\<close> raises there is no file; when the write raises the file
  is left empty; when the closing raises the file has its content.
\<close>

definition write_debug :: "'f env \<Rightarrow> string \<Rightarrow> string \<Rightarrow> 'f event list \<times> exn option" where
  "write_debug E name content =
     (case fopen E name of
        Some e \<Rightarrow> ([], Some e)
      | None \<Rightarrow>
          (case fwrite E name 0 of
             Some e \<Rightarrow> ([File_write name []], Some e)
           | None \<Rightarrow> ([File_write name content], fclose E name)))"

text \<open>
  One turn of the \<open>while\<close> loop. \<open>Break\<close> leaves the loop with the books returned so far,
  \<open>Raise\<close> leaves the function with an exception that no handler of it catches,
  \<open>Next_page\<close> goes on with the next page.
\<close>

datatype 'f turn =
    Break "'f book list"
  | Raise exn
  | Next_page "'f book list"

definition scrape_page ::
  "'f env \<Rightarrow> shelf_kind \<Rightarrow> string \<Rightarrow> int \<Rightarrow> 'f book list \<Rightarrow> 'f event list \<times> 'f turn" where
  "scrape_page E sh username page books =
     (let books_url = shelf_url sh username page
      in case http_get E books_url of
           Inl e \<Rightarrow>
             ([Http_get books_url], if is_request_exception e then Break books else Raise e)
         | Inr soup \<Rightarrow>
             (let (dump, raised) =
                    (if page = 1
                     then write_debug E (debug_file sh username) (prettify E soup)
                     else ([], None))
              in case raised of
                   Some e \<Rightarrow> ([Http_get books_url] @ dump, Raise e)
                 | None \<Rightarrow>
                     (let (scans, book_entries) = locate_entries soup;
                          tr = [Http_get books_url] @ dump @ map Scan scans
                      in if book_entries = [] then (tr, Break books)
                         else (let page_books = extract_page E sh book_entries
                               in if page_books = [] then (tr, Break books)
                                  else if find_first ''a'' (class_is ''next_page'') soup = None
                                  then (tr, Break (books @ page_books))
                                  else (tr @ [Sleep], Next_page (books @ page_books))))))"

function scrape_pages ::
  "'f env \<Rightarrow> shelf_kind \<Rightarrow> string \<Rightarrow> int \<Rightarrow> int \<Rightarrow> 'f book list \<Rightarrow> 'f event list
     \<Rightarrow> 'f event list \<times> (exn + 'f book list)" where
  "scrape_pages E sh username max_pages page books tr =
     (if page \<le> max_pages
      then (case scrape_page E sh username page books of
              (tr1, Break books1) \<Rightarrow> (tr @ tr1, Inr books1)
            | (tr1, Raise e) \<Rightarrow> (tr @ tr1, Inl e)
            | (tr1, Next_page books1) \<Rightarrow>
                scrape_pages E sh username max_pages (page + 1) books1 (tr @ tr1))
      else (tr, Inr books))"
  by pat_completeness auto
termination
  by (relation "measure (\<lambda>(E, sh, username, max_pages, page, books, tr).
                  nat (max_pages + 1 - page))") auto

declare scrape_pages.simps [simp del]

text \<open>
  \<open>scrape_read_books\<close> and \<open>scrape_currently_reading\<close> are the same function up to the
  URL, the name of the debug file and the tag of the shelf: no books, page 1, the loop.
\<close>

definition scrape_shelf ::
  "'f env \<Rightarrow> shelf_kind \<Rightarrow> string \<Rightarrow> int \<Rightarrow> 'f event list \<times> (exn + 'f book list)" where
  "scrape_shelf E sh username max_pages = scrape_pages E sh username max_pages 1 [] []"

definition scrape_read_books ::
  "'f env \<Rightarrow> string \<Rightarrow> int \<Rightarrow> 'f event list \<times> (exn + 'f book list)" where
  "scrape_read_books E username max_pages = scrape_shelf E Read_shelf username max_pages"

definition scrape_currently_reading ::
  "'f env \<Rightarrow> string \<Rightarrow> int \<Rightarrow> 'f event list \<times> (exn + 'f book list)" where
  "scrape_currently_reading E username max_pages =
     scrape_shelf E Currently_reading_shelf username max_pages"

text \<open>The default values of \<open>max_pages\<close>.\<close>

definition read_max_pages :: int where
  "read_max_pages = 50"

definition currently_reading_max_pages :: int where
  "currently_reading_max_pages = 10"

section \<open>The profile\<close>

record profile =
  display_name :: "string option"
  location :: "string option"
  member_since :: "string option"

definition empty_profile :: profile where
  "empty_profile = \<lparr>display_name = None, location = None, member_since = None\<rparr>"

text \<open>
  \<open>tag.string\<close>: the string of a tag whose only child is a string of any class, or is
  such a tag.
\<close>

fun node_string :: "node \<Rightarrow> string option" where
  "node_string (Text s) = Some s"
| "node_string (Special s) = Some s"
| "node_string (Elem n c h [k]) = node_string k"
| "node_string (Elem n c h ks) = None"

text \<open>\<open>string=re.compile(r'Member since')\<close>\<close>

definition string_member_since :: "node \<Rightarrow> bool" where
  "string_member_since nd =
     (case node_string nd of None \<Rightarrow> False | Some s \<Rightarrow> contains ''Member since'' s)"

text \<open>\<open>s.replace(pat, '')\<close> for a pattern that is not empty.\<close>

function remove_all :: "string \<Rightarrow> string \<Rightarrow> string" where
  "remove_all pat [] = []"
| "remove_all pat (c # cs) =
     (if pat \<noteq> [] \<and> prefix pat (c # cs) then remove_all pat (drop (length pat) (c # cs))
      else c # remove_all pat cs)"
  by pat_completeness auto
termination
  by (relation "measure (\<lambda>(pat, s). length s)") auto

definition scrape_profile :: "'f env \<Rightarrow> string \<Rightarrow> 'f event list \<times> (exn + profile)" where
  "scrape_profile E username =
     (let profile_url = get_profile_url username
      in case http_get E profile_url of
           Inl e \<Rightarrow>
             ([Http_get profile_url],
              if is_request_exception e then Inr empty_profile else Inl e)
         | Inr soup \<Rightarrow>
             (let p1 = (case find_first ''h1'' (class_is ''userProfileName'') soup of
                          None \<Rightarrow> empty_profile
                        | Some name_elem \<Rightarrow>
                            empty_profile\<lparr>display_name := Some (get_text_strip name_elem)\<rparr>);
                  p2 = (case find_first ''span'' (class_is ''userLocation'') soup of
                          None \<Rightarrow> p1
                        | Some location_elem \<Rightarrow>
                            p1\<lparr>location := Some (get_text_strip location_elem)\<rparr>);
                  p3 = (case find_first ''span'' string_member_since soup of
                          None \<Rightarrow> p2
                        | Some join_elem \<Rightarrow>
                            p2\<lparr>member_since :=
                                 Some (strip (remove_all ''Member since''
                                                (get_text_strip join_elem)))\<rparr>)
              in ([Http_get profile_url], Inr p3)))"

section \<open>The exporter\<close>

definition fieldnames :: "string list" where
  "fieldnames = [''title'', ''author'', ''publish_date'', ''isbn'', ''rating'', ''avg_rating'',
                 ''pages'', ''book_url'', ''author_url'', ''shelf'']"

text \<open>\<open>book.get(field)\<close>\<close>

definition book_get :: "string \<Rightarrow> 'f book \<Rightarrow> 'f cell option" where
  "book_get field b =
     (if field = ''title'' then map_option CStr (title b)
      else if field = ''author'' then map_option CStr (author b)
      else if field = ''publish_date'' then map_option CStr (publish_date b)
      else if field = ''isbn'' then map_option CStr (isbn b)
      else if field = ''rating'' then map_option CInt (rating b)
      else if field = ''avg_rating'' then map_option CFloat (avg_rating b)
      else if field = ''pages'' then map_option CInt (pages b)
      else if field = ''book_url'' then map_option CStr (book_url b)
      else if field = ''author_url'' then map_option CStr (author_url b)
      else if field = ''shelf'' then map_option CStr (shelf b)
      else None)"

text \<open>\<open>{field: book.get(field, '') for field in fieldnames}\<close>, in the order of the columns.\<close>

definition csv_row :: "'f book \<Rightarrow> 'f cell list" where
  "csv_row b = map (\<lambda>field. case book_get field b of None \<Rightarrow> CStr [] | Some v \<Rightarrow> v) fieldnames"

text \<open>
  \<open>writeheader\<close> and the loop of \<open>writerow\<close>: the rows are written one by one, the
  write number \<open>k\<close> first; a write that raises ends the writing. The result is the rows
  whose write returned, and the exception if there was one.
\<close>

fun write_rows ::
  "'f env \<Rightarrow> string \<Rightarrow> nat \<Rightarrow> 'f cell list list \<Rightarrow> 'f cell list list \<times> exn option" where
  "write_rows E name k [] = ([], None)"
| "write_rows E name k (row # rows) =
     (case fwrite E name k of
        Some e \<Rightarrow> ([], Some e)
      | None \<Rightarrow> (case write_rows E name (Suc k) rows of
                   (written, raised) \<Rightarrow> (row # written, raised)))"

text \<open>
  \<open>save_to_csv\<close>. The file is the list of its rows, the header first; how the writer
  quotes and separates the cells is not modelled. \<open>open\<close>, each write and the closing of
  the file at the end of the \<open>with\<close> block may raise; the one handler prints the error.
  After a write or the closing raised, the file is recorded with the rows whose write had
  returned.
\<close>

definition save_to_csv :: "'f env \<Rightarrow> 'f book list \<Rightarrow> string \<Rightarrow> 'f event list" where
  "save_to_csv E books filename =
     (if books = [] then [Print ''No books to save'']
      else (case fopen E filename of
              Some e \<Rightarrow> [Print (''Error saving to CSV: '' @ exn_str e)]
            | None \<Rightarrow>
                (case write_rows E filename 0 (map CStr fieldnames # map csv_row books) of
                   (written, Some e) \<Rightarrow>
                     [Csv_write filename written, Print (''Error saving to CSV: '' @ exn_str e)]
                 | (written, None) \<Rightarrow>
                     (case fclose E filename of
                        Some e \<Rightarrow>
                          [Csv_write filename written,
                           Print (''Error saving to CSV: '' @ exn_str e)]
                      | None \<Rightarrow>
                          [Csv_write filename written,
                           Print (''Books saved to '' @ filename)]))))"

section \<open>The author ranking of the summary\<close>

text \<open>\<open>authors[a] = authors.get(a, 0) + 1\<close> on a dictionary that keeps the order of insertion.\<close>

fun bump :: "string \<Rightarrow> (string \<times> int) list \<Rightarrow> (string \<times> int) list" where
  "bump a [] = [(a, 1)]"
| "bump a ((k, n) # kvs) = (if k = a then (k, n + 1) # kvs else (k, n) # bump a kvs)"

definition author_counts :: "'f book list \<Rightarrow> (string \<times> int) list" where
  "author_counts books =
     foldl (\<lambda>authors b. case author b of
                          None \<Rightarrow> authors
                        | Some a \<Rightarrow> if a \<noteq> [] then bump a authors else authors)
       [] books"

text \<open>
  \<open>sorted(authors.items(), key=lambda x: x[1], reverse=True)[:10]\<close>: Python's sort is
  stable, also with \<open>reverse=True\<close>, so it is the stable sort by descending count.
\<close>

definition sorted_authors :: "'f book list \<Rightarrow> (string \<times> int) list" where
  "sorted_authors books = take 10 (sort_key (\<lambda>x. - snd x) (author_counts books))"

text \<open>
  Lines 421 to 431 of \<open>print_books_summary\<close>, which returns before them when there are no
  books.
\<close>

definition print_top_authors :: "'f book list \<Rightarrow> 'f event list" where
  "print_top_authors books =
     (if books = [] then []
      else if author_counts books = [] then []
      else Print (CHR 0x0A # ''Top authors:'')
             # map (\<lambda>(a, n). Print (''  '' @ a @ '': '' @ str_int n @ '' books''))
                 (sorted_authors books))"

section \<open>The run\<close>

text \<open>
  \<open>main\<close>, after the check of the arguments: the profile, the two shelves, the export.
  Its console output is left out.
\<close>

definition main :: "'f env \<Rightarrow> string \<Rightarrow> 'f event list \<times> (exn + unit)" where
  "main E username =
     (case scrape_profile E username of
        (tr0, Inl e) \<Rightarrow> (tr0, Inl e)
      | (tr0, Inr profile_info) \<Rightarrow>
          (case scrape_read_books E username read_max_pages of
             (tr1, Inl e) \<Rightarrow> (tr0 @ tr1, Inl e)
           | (tr1, Inr read_books) \<Rightarrow>
               (case scrape_currently_reading E username currently_reading_max_pages of
                  (tr2, Inl e) \<Rightarrow> (tr0 @ tr1 @ tr2, Inl e)
                | (tr2, Inr currently_reading_books) \<Rightarrow>
                    (let all_books = read_books @ currently_reading_books
                     in if all_books \<noteq> []
                        then (tr0 @ tr1 @ tr2
                                @ save_to_csv E all_books (username @ ''_goodreads_books.csv''),
                              Inr ())
                        else (tr0 @ tr1 @ tr2, Inr ())))))"

section \<open>Notions of the specification\<close>

text \<open>The first link of the title cell and of the author cell of a row.\<close>

definition title_link :: "node \<Rightarrow> node option" where
  "title_link entry =
     (case find_first ''td'' (class_is ''field title'') entry of
        None \<Rightarrow> None
      | Some cell \<Rightarrow> find_first ''a'' any_node cell)"

definition author_link :: "node \<Rightarrow> node option" where
  "author_link entry =
     (case find_first ''td'' (class_is ''field author'') entry of
        None \<Rightarrow> None
      | Some cell \<Rightarrow> find_first ''a'' any_node cell)"

text \<open>The target of a link resolves when \<open>urljoin\<close> returns for it.\<close>

definition resolves :: "'f env \<Rightarrow> node \<Rightarrow> bool" where
  "resolves E a =
     (case urljoin E base_url (href_or_empty a) of Inl x \<Rightarrow> False | Inr u \<Rightarrow> True)"

text \<open>The run of digits of the page-count cell that is converted to an integer, if any.\<close>

definition pages_digits :: "node \<Rightarrow> string option" where
  "pages_digits entry =
     (case value_elem ''field num_pages'' entry of
        None \<Rightarrow> None
      | Some v \<Rightarrow>
          (if get_text_strip v \<noteq> [] \<and> get_text_strip v \<noteq> ''None''
           then search_digits (get_text_strip v) else None))"

text \<open>Four digits in a row start at position \<open>i\<close> of the text.\<close>

definition d4_at :: "string \<Rightarrow> nat \<Rightarrow> bool" where
  "d4_at t i = (i + 4 \<le> length t \<and> list_all is_digit (take 4 (drop i t)))"

text \<open>A filled star: a \<open>span\<close> of class \<open>staticStar\<close> that also carries \<open>p10\<close>.\<close>

definition filled_star :: "node \<Rightarrow> bool" where
  "filled_star d = (is_elem d \<and> el_name d = ''span'' \<and> class_is ''staticStar'' d \<and> has_p10 d)"

definition filled_stars :: "node \<Rightarrow> nat" where
  "filled_stars v = length (filter filled_star (descendants v))"

text \<open>A column of the export: the value of the field, or the empty string.\<close>

definition or_empty :: "('a \<Rightarrow> 'f cell) \<Rightarrow> 'a option \<Rightarrow> 'f cell" where
  "or_empty c v = (case v of None \<Rightarrow> CStr [] | Some x \<Rightarrow> c x)"


text \<open>The searches of the locator in their order, and what each one yields on a page.\<close>

definition all_scans :: "scan list" where
  "all_scans = [Bookalike_rows, Table_rows, Book_divs]"

fun scan_result :: "scan \<Rightarrow> node \<Rightarrow> node list" where
  "scan_result Bookalike_rows soup = strategy1 soup"
| "scan_result Table_rows soup = strategy2 soup"
| "scan_result Book_divs soup = strategy3 soup"

text \<open>A link to a book's page: an \<open>a\<close> whose target contains \<open>/book/show/\<close>.\<close>

definition book_link :: "node \<Rightarrow> bool" where
  "book_link a = (is_elem a \<and> el_name a = ''a'' \<and> href_book_show a)"

definition has_book_link :: "node \<Rightarrow> bool" where
  "has_book_link d = list_ex book_link (descendants d)"

text \<open>The URLs requested, in order.\<close>

fun request_of :: "'f event \<Rightarrow> string list" where
  "request_of (Http_get url) = [url]"
| "request_of (Scan s) = []"
| "request_of (File_write name content) = []"
| "request_of (Csv_write name rows) = []"
| "request_of Sleep = []"
| "request_of (Print line) = []"

definition requests :: "'f event list \<Rightarrow> string list" where
  "requests tr = concat (map request_of tr)"

text \<open>
  What page \<open>i\<close> of a shelf holds: the entries located on it and the records extracted
  from them (none when the request fails), and whether it has a link to a next page.
\<close>

definition page_entries :: "'f env \<Rightarrow> shelf_kind \<Rightarrow> string \<Rightarrow> int \<Rightarrow> node list" where
  "page_entries E sh username i =
     (case http_get E (shelf_url sh username i) of
        Inl e \<Rightarrow> []
      | Inr soup \<Rightarrow> snd (locate_entries soup))"

definition page_records :: "'f env \<Rightarrow> shelf_kind \<Rightarrow> string \<Rightarrow> int \<Rightarrow> 'f book list" where
  "page_records E sh username i = extract_page E sh (page_entries E sh username i)"

definition page_has_next :: "'f env \<Rightarrow> shelf_kind \<Rightarrow> string \<Rightarrow> int \<Rightarrow> bool" where
  "page_has_next E sh username i =
     (case http_get E (shelf_url sh username i) of
        Inl e \<Rightarrow> False
      | Inr soup \<Rightarrow> find_first ''a'' (class_is ''next_page'') soup \<noteq> None)"

definition fetch_fails :: "'f env \<Rightarrow> shelf_kind \<Rightarrow> string \<Rightarrow> int \<Rightarrow> bool" where
  "fetch_fails E sh username i =
     (case http_get E (shelf_url sh username i) of Inl e \<Rightarrow> True | Inr soup \<Rightarrow> False)"

text \<open>
  The exception that leaves the function at page \<open>i\<close>, if any: one of the request that is
  not a \<open>RequestException\<close>, or one of the debug file of page 1.
\<close>

definition page_raises :: "'f env \<Rightarrow> shelf_kind \<Rightarrow> string \<Rightarrow> int \<Rightarrow> exn option" where
  "page_raises E sh username i =
     (case http_get E (shelf_url sh username i) of
        Inl e \<Rightarrow> if is_request_exception e then None else Some e
      | Inr soup \<Rightarrow>
          if i = 1 then snd (write_debug E (debug_file sh username) (prettify E soup))
          else None)"

text \<open>
  A request fails: the transport raises a \<open>RequestException\<close>, or the server answers with
  a status from 400 to 599.
\<close>

definition fetch_error :: "'f env \<Rightarrow> string \<Rightarrow> bool" where
  "fetch_error E url =
     (case session_get E url of
        Inl e \<Rightarrow> is_request_exception e
      | Inr r \<Rightarrow> 400 \<le> status_code r \<and> status_code r < 600)"

text \<open>None of the reasons to stop holds at page \<open>i\<close>.\<close>

definition goes_on :: "'f env \<Rightarrow> shelf_kind \<Rightarrow> string \<Rightarrow> int \<Rightarrow> bool" where
  "goes_on E sh username i =
     (\<not> fetch_fails E sh username i \<and> page_raises E sh username i = None
      \<and> page_entries E sh username i \<noteq> [] \<and> page_records E sh username i \<noteq> []
      \<and> page_has_next E sh username i)"

text \<open>The number of pages that a scrape of a shelf requests.\<close>

definition last_page :: "'f env \<Rightarrow> shelf_kind \<Rightarrow> string \<Rightarrow> int \<Rightarrow> int" where
  "last_page E sh username max_pages =
     int (length (requests (fst (scrape_shelf E sh username max_pages))))"

text \<open>Who is counted in the ranking: the authors with a name that is not empty.\<close>

definition authors_of :: "'f book list \<Rightarrow> string set" where
  "authors_of books = {a. a \<noteq> [] \<and> (\<exists>b\<in>set books. author b = Some a)}"

text \<open>The position of the first record of an author in a sequence of records.\<close>

definition first_seen :: "'f book list \<Rightarrow> string \<Rightarrow> nat" where
  "first_seen books a = length (takeWhile (\<lambda>b. author b \<noteq> Some a) books)"

text \<open>The number of records of an author.\<close>

definition book_count :: "'f book list \<Rightarrow> string \<Rightarrow> int" where
  "book_count books a = int (length (filter (\<lambda>b. author b = Some a) books))"

section \<open>Example pages\<close>

text \<open>
  A world for the examples: every reference is an absolute path, which \<open>urljoin\<close> appends
  to the base; one text is a float; every file can be opened, written and closed.
\<close>

definition demo_env :: "(string \<Rightarrow> exn + response) \<Rightarrow> real env" where
  "demo_env web =
     \<lparr>urljoin = (\<lambda>base url. Inr (base @ url)),
      py_float = (\<lambda>s. if s = ''4.25'' then Some 4.25 else None),
      prettify = (\<lambda>nd. []),
      session_get = web,
      fopen = (\<lambda>name. None),
      fwrite = (\<lambda>name k. None),
      fclose = (\<lambda>name. None)\<rparr>"

definition offline :: "string \<Rightarrow> exn + response" where
  "offline url = Inl (RequestException ''Connection refused'')"

text \<open>A file system that refuses to open any file.\<close>

definition read_only_env :: "real env" where
  "read_only_env =
     (demo_env offline)\<lparr>fopen := (\<lambda>name. Some (OSError ''[Errno 13] Permission denied''))\<rparr>"

text \<open>The answers of a server: a page, and an empty body under an error status.\<close>

definition found :: "string \<Rightarrow> node \<Rightarrow> response" where
  "found url page =
     \<lparr>status_code = 200, reason_phrase = ''OK'', final_url = url, parsed_content = page\<rparr>"

definition refused :: "int \<Rightarrow> string \<Rightarrow> string \<Rightarrow> response" where
  "refused status reason url =
     \<lparr>status_code = status, reason_phrase = reason, final_url = url,
      parsed_content = Elem ''[document]'' None None []\<rparr>"

definition cell :: "string \<Rightarrow> node list \<Rightarrow> node" where
  "cell field kids =
     Elem ''td'' (Some [''field'', field]) None [Elem ''div'' (Some [''value'']) None kids]"

definition star :: "string \<Rightarrow> node" where
  "star p = Elem ''span'' (Some [''staticStar'', p]) None []"

definition link_paradise :: node where
  "link_paradise = Elem ''a'' None (Some ''/book/show/46165'') [Text '' This Side of Paradise '']"

definition row_paradise :: node where
  "row_paradise =
     Elem ''tr'' (Some [''bookalike'', ''review'']) None
       [cell ''title'' [link_paradise],
        cell ''author'' [Elem ''a'' None (Some ''/author/show/3190'') [Text ''Fitzgerald, F. Scott'']],
        cell ''date_pub'' [Text '' Mar 26, 1920 ''],
        cell ''rating'' [star ''p10'', star ''p10'', star ''p10'', star ''p0'', star ''p0''],
        cell ''num_pages'' [Text ''305 pp'']]"

definition row_six_stars :: node where
  "row_six_stars =
     Elem ''tr'' (Some [''bookalike'', ''review'']) None
       [cell ''title'' [link_paradise],
        cell ''rating'' [star ''p10'', star ''p10'', star ''p10'', star ''p10'', star ''p10'',
                         star ''p10'']]"

text \<open>A page count of 4301 digits.\<close>

definition long_digits :: string where
  "long_digits = replicate 4301 CHR ''1''"

definition row_long_pages :: node where
  "row_long_pages =
     Elem ''tr'' (Some [''bookalike'', ''review'']) None
       [cell ''title'' [link_paradise],
        cell ''num_pages'' [Text long_digits]]"

text \<open>A row whose title cell has no link.\<close>

definition row_untitled :: node where
  "row_untitled =
     Elem ''tr'' (Some [''bookalike'', ''review'']) None
       [cell ''title'' [Text ''This Side of Paradise''],
        cell ''author'' [Elem ''a'' None (Some ''/author/show/3190'') [Text ''Fitzgerald, F. Scott'']]]"

text \<open>The record of the first example row on the shelf of read books, and a second one.\<close>

definition book_paradise :: "real book" where
  "book_paradise =
     \<lparr>title = Some ''This Side of Paradise'', author = Some ''Fitzgerald, F. Scott'',
      publish_date = Some ''1920'', isbn = None, rating = Some 3, avg_rating = None,
      pages = Some 305, book_url = Some ''https://www.goodreads.com/book/show/46165'',
      author_url = Some ''https://www.goodreads.com/author/show/3190'', shelf = Some ''read''\<rparr>"

definition book_dune :: "real book" where
  "book_dune =
     \<lparr>title = Some ''Dune'', author = None, publish_date = None, isbn = None, rating = None,
      avg_rating = Some 4.25, pages = None,
      book_url = Some ''https://www.goodreads.com/book/show/44767458'', author_url = None,
      shelf = Some ''currently-reading''\<rparr>"

text \<open>
  A world in which \<open>urljoin\<close> refuses the reference \<open>//[\<close>, as \<open>urllib\<close> does (its
  authority opens a bracket and does not close it), and a row whose title links there.
\<close>

definition strict_env :: "real env" where
  "strict_env =
     (demo_env offline)
       \<lparr>urljoin := (\<lambda>base url. if url = ''//['' then Inl (ValueError ''Invalid IPv6 URL'')
                                else Inr (base @ url))\<rparr>"

definition row_bad_href :: node where
  "row_bad_href =
     Elem ''tr'' (Some [''bookalike'', ''review'']) None
       [cell ''title'' [Elem ''a'' None (Some ''//['') [Text ''This Side of Paradise'']]]"

definition next_link :: node where
  "next_link = Elem ''a'' (Some [''next_page'']) (Some ''/review/list/ann?page=2'') [Text ''next'']"

definition page_of :: "node list \<Rightarrow> node" where
  "page_of kids = Elem ''[document]'' None None [Elem ''table'' None None kids]"

text \<open>
  A shelf whose first page has one book and whose second page has a row without a title;
  both pages link to a next page, and a third page exists.
\<close>

definition web_blank_second :: "string \<Rightarrow> exn + response" where
  "web_blank_second url =
     (if url = get_read_books_url ''ann'' 1 then Inr (found url (page_of [row_paradise, next_link]))
      else if url = get_read_books_url ''ann'' 2
      then Inr (found url (page_of [row_untitled, next_link]))
      else if url = get_read_books_url ''ann'' 3
      then Inr (found url (page_of [row_paradise, next_link]))
      else Inr (refused 404 ''Not Found'' url))"

text \<open>
  A shelf whose first page has one book and whose next page, like every other page of the
  site, is answered with the status 503.
\<close>

definition web_broken_second :: "string \<Rightarrow> exn + response" where
  "web_broken_second url =
     (if url = get_read_books_url ''ann'' 1 then Inr (found url (page_of [row_paradise, next_link]))
      else Inr (refused 503 ''Service Unavailable'' url))"

text \<open>A site that answers every request with the same page, which links to a next page.\<close>

definition web_endless :: "string \<Rightarrow> exn + response" where
  "web_endless url = Inr (found url (page_of [row_paradise, next_link]))"

text \<open>
  A shelf whose first page is answered with the status 300 and a body that holds a book
  and a link to a next page, and whose second page has one book and no such link.
\<close>

definition web_multiple_choices :: "string \<Rightarrow> exn + response" where
  "web_multiple_choices url =
     (if url = get_read_books_url ''ann'' 1
      then Inr \<lparr>status_code = 300, reason_phrase = ''Multiple Choices'', final_url = url,
                parsed_content = page_of [row_paradise, next_link]\<rparr>
      else if url = get_read_books_url ''ann'' 2 then Inr (found url (page_of [row_paradise]))
      else Inr (refused 404 ''Not Found'' url))"

text \<open>
  A page without marked rows: three plain table rows with a link to a book, and a
  container that the third search would find.
\<close>

definition plain_row :: "string \<Rightarrow> node" where
  "plain_row url = Elem ''tr'' None None [Elem ''td'' None None [Elem ''a'' None (Some url) []]]"

definition page_plain_rows :: node where
  "page_plain_rows =
     Elem ''[document]'' None None
       [Elem ''table'' None None
          [plain_row ''/book/show/1'', plain_row ''/book/show/2'', plain_row ''/book/show/3''],
        Elem ''div'' (Some [''bookItem'']) None [Elem ''a'' None (Some ''/book/show/4'') []]]"

text \<open>Records of three authors, two of them with the same number of books.\<close>

definition by_author :: "string \<Rightarrow> real book" where
  "by_author a = empty_book\<lparr>title := Some ''A title'', author := Some a\<rparr>"

definition shelf_of_three :: "real book list" where
  "shelf_of_three =
     [by_author ''Woolf'', by_author ''Austen'', by_author ''Eliot'', by_author ''Eliot'',
      by_author ''Austen'']"

section \<open>The field extractor: one record per titled row\<close>

lemma set_title_cases:
  "set_title E entry b =
     (case title_link entry of
        None \<Rightarrow> Inr b
      | Some a \<Rightarrow> (case urljoin E base_url (href_or_empty a) of
                    Inl x \<Rightarrow> Inl x
                  | Inr u \<Rightarrow> Inr (b\<lparr>title := Some (get_text_strip a), book_url := Some u\<rparr>)))"
  by (simp add: set_title_def title_link_def split: option.splits)

lemma set_author_cases:
  "set_author E entry b =
     (case author_link entry of
        None \<Rightarrow> Inr b
      | Some a \<Rightarrow> (case urljoin E base_url (href_or_empty a) of
                    Inl x \<Rightarrow> Inl x
                  | Inr u \<Rightarrow> Inr (b\<lparr>author := Some (get_text_strip a), author_url := Some u\<rparr>)))"
  by (simp add: set_author_def author_link_def split: option.splits)

lemma set_pages_cases:
  "set_pages entry b =
     (case pages_digits entry of
        None \<Rightarrow> Inr b
      | Some ds \<Rightarrow> (case py_int ds of Inl x \<Rightarrow> Inl x | Inr n \<Rightarrow> Inr (b\<lparr>pages := Some n\<rparr>)))"
  by (simp add: set_pages_def pages_digits_def Let_def split: option.splits)

lemma set_author_keeps:
  "set_author E entry b = Inr b' \<Longrightarrow>
     title b' = title b \<and> book_url b' = book_url b \<and> publish_date b' = publish_date b
     \<and> rating b' = rating b"
  by (auto simp: set_author_cases split: option.splits sum.splits)

lemma set_isbn_keeps:
  "title (set_isbn entry b) = title b \<and> book_url (set_isbn entry b) = book_url b
   \<and> publish_date (set_isbn entry b) = publish_date b \<and> rating (set_isbn entry b) = rating b"
  by (simp add: set_isbn_def Let_def split: option.splits)

lemma set_publish_date_keeps:
  "title (set_publish_date entry b) = title b \<and> book_url (set_publish_date entry b) = book_url b
   \<and> rating (set_publish_date entry b) = rating b"
  by (simp add: set_publish_date_def Let_def split: option.splits)

lemma set_rating_keeps:
  "title (set_rating entry b) = title b \<and> book_url (set_rating entry b) = book_url b
   \<and> publish_date (set_rating entry b) = publish_date b"
  by (simp add: set_rating_def Let_def split: option.splits)

lemma set_avg_rating_keeps:
  "title (set_avg_rating E entry b) = title b \<and> book_url (set_avg_rating E entry b) = book_url b
   \<and> publish_date (set_avg_rating E entry b) = publish_date b
   \<and> rating (set_avg_rating E entry b) = rating b"
  by (simp add: set_avg_rating_def Let_def split: option.splits)

lemma set_pages_keeps:
  "set_pages entry b = Inr b' \<Longrightarrow>
     title b' = title b \<and> book_url b' = book_url b \<and> publish_date b' = publish_date b
     \<and> rating b' = rating b"
  by (auto simp: set_pages_cases split: option.splits sum.splits)

lemma set_title_keeps:
  "set_title E entry b = Inr b' \<Longrightarrow> publish_date b' = publish_date b \<and> rating b' = rating b"
  by (auto simp: set_title_cases split: option.splits sum.splits)

lemma extract_fields_steps:
  assumes "extract_fields E entry = Inr b"
  obtains b1 b2 where
    "set_title E entry empty_book = Inr b1"
    "set_author E entry b1 = Inr b2"
    "set_pages entry (set_avg_rating E entry (set_rating entry (set_publish_date entry
       (set_isbn entry b2)))) = Inr b"
  using assms by (auto simp: extract_fields_def split: sum.splits)

lemma extract_fields_publish_date:
  assumes "extract_fields E entry = Inr b"
  shows "publish_date b =
     (case value_elem ''field date_pub'' entry of
        None \<Rightarrow> None
      | Some v \<Rightarrow>
          (if get_text_strip v = [] \<or> get_text_strip v = ''None'' then None
           else (case search_d4 (get_text_strip v) of
                   Some year \<Rightarrow> Some year
                 | None \<Rightarrow> Some (get_text_strip v))))"
proof -
  from assms obtain b1 b2 where
    1: "set_title E entry empty_book = Inr b1" and
    2: "set_author E entry b1 = Inr b2" and
    3: "set_pages entry (set_avg_rating E entry (set_rating entry (set_publish_date entry
          (set_isbn entry b2)))) = Inr b"
    by (rule extract_fields_steps)
  have "publish_date b2 = None"
    using set_title_keeps [OF 1] set_author_keeps [OF 2] by (simp add: empty_book_def)
  then have 4: "publish_date (set_isbn entry b2) = None"
    by (simp add: set_isbn_keeps)
  have "publish_date b = publish_date (set_publish_date entry (set_isbn entry b2))"
    using set_pages_keeps [OF 3] by (simp add: set_avg_rating_keeps set_rating_keeps)
  then show ?thesis
    using 4 by (simp add: set_publish_date_def Let_def split: option.splits)
qed

lemma extract_fields_rating:
  assumes "extract_fields E entry = Inr b"
  shows "rating b =
     (case value_elem ''field rating'' entry of
        None \<Rightarrow> None
      | Some v \<Rightarrow>
          (let n = int (length (filter has_p10 (find_all ''span'' (class_is ''staticStar'') v)))
           in if 0 < n then Some n else None))"
proof -
  from assms obtain b1 b2 where
    1: "set_title E entry empty_book = Inr b1" and
    2: "set_author E entry b1 = Inr b2" and
    3: "set_pages entry (set_avg_rating E entry (set_rating entry (set_publish_date entry
          (set_isbn entry b2)))) = Inr b"
    by (rule extract_fields_steps)
  have "rating b2 = None"
    using set_title_keeps [OF 1] set_author_keeps [OF 2] by (simp add: empty_book_def)
  then have 4: "rating (set_publish_date entry (set_isbn entry b2)) = None"
    by (simp add: set_isbn_keeps set_publish_date_keeps)
  have "rating b = rating (set_rating entry (set_publish_date entry (set_isbn entry b2)))"
    using set_pages_keeps [OF 3] by (simp add: set_avg_rating_keeps)
  then show ?thesis
    using 4 by (auto simp add: set_rating_def Let_def split: option.splits)
qed

lemma extract_fields_title:
  assumes "extract_fields E entry = Inr b"
  shows "(case title_link entry of
            None \<Rightarrow> title b = None \<and> book_url b = None
          | Some a \<Rightarrow> title b = Some (get_text_strip a)
                      \<and> (\<exists>u. book_url b = Some u
                               \<and> urljoin E base_url (href_or_empty a) = Inr u))"
proof -
  from assms obtain b1 b2 where
    1: "set_title E entry empty_book = Inr b1" and
    2: "set_author E entry b1 = Inr b2" and
    3: "set_pages entry (set_avg_rating E entry (set_rating entry (set_publish_date entry
          (set_isbn entry b2)))) = Inr b"
    by (rule extract_fields_steps)
  have "title b = title b1 \<and> book_url b = book_url b1"
    using set_pages_keeps [OF 3] set_author_keeps [OF 2]
    by (simp add: set_avg_rating_keeps set_rating_keeps set_publish_date_keeps set_isbn_keeps)
  then show ?thesis
    using 1 by (auto simp: set_title_cases empty_book_def split: option.splits sum.splits)
qed


lemma set_title_ok:
  "(\<exists>b'. set_title E entry b = Inr b') = (\<forall>a. title_link entry = Some a \<longrightarrow> resolves E a)"
  by (auto simp: set_title_cases resolves_def split: option.splits sum.splits)

lemma set_author_ok:
  "(\<exists>b'. set_author E entry b = Inr b') = (\<forall>a. author_link entry = Some a \<longrightarrow> resolves E a)"
  by (auto simp: set_author_cases resolves_def split: option.splits sum.splits)

lemma set_pages_ok:
  "(\<exists>b'. set_pages entry b = Inr b')
     = (\<forall>ds. pages_digits entry = Some ds \<longrightarrow> length ds \<le> int_max_str_digits)"
  by (auto simp: set_pages_cases py_int_def split: option.splits sum.splits)

lemma extract_fields_ok:
  "(\<exists>b. extract_fields E entry = Inr b)
     = ((\<forall>a. title_link entry = Some a \<longrightarrow> resolves E a)
        \<and> (\<forall>a. author_link entry = Some a \<longrightarrow> resolves E a)
        \<and> (\<forall>ds. pages_digits entry = Some ds \<longrightarrow> length ds \<le> int_max_str_digits))"
proof -
  have "(\<exists>b. extract_fields E entry = Inr b)
          = (\<exists>b1 b2 b. set_title E entry empty_book = Inr b1 \<and> set_author E entry b1 = Inr b2
               \<and> set_pages entry (set_avg_rating E entry (set_rating entry
                    (set_publish_date entry (set_isbn entry b2)))) = Inr b)"
    by (auto simp: extract_fields_def split: sum.splits)
  also have "\<dots> = ((\<exists>b1. set_title E entry (empty_book :: 'a book) = Inr b1)
                     \<and> (\<forall>a. author_link entry = Some a \<longrightarrow> resolves E a)
                     \<and> (\<forall>ds. pages_digits entry = Some ds \<longrightarrow> length ds \<le> int_max_str_digits))"
    using set_author_ok [of E entry] set_pages_ok [of entry] by metis
  finally show ?thesis
    by (simp add: set_title_ok)
qed

lemma extract_book_info_Some:
  "(extract_book_info E entry = Some b) = (extract_fields E entry = Inr b \<and> truthy (title b))"
  by (auto simp: extract_book_info_def split: sum.splits)

text \<open>
  Claim C1, as the code has it. A row yields a record if and only if its title cell's
  first link has a text that is not empty after stripping and nothing raises while the
  row is read, that is: the targets of the title link and of the author link resolve,
  and the page count, if there is one, has at most 4300 digits. A row without a title
  link, or without a title cell, yields no record, whatever else it holds.
\<close>

theorem extract_book_info_iff:
  "((extract_book_info E entry \<noteq> None)
      = ((\<exists>a. title_link entry = Some a \<and> get_text_strip a \<noteq> [] \<and> resolves E a)
         \<and> (\<forall>a. author_link entry = Some a \<longrightarrow> resolves E a)
         \<and> (\<forall>ds. pages_digits entry = Some ds \<longrightarrow> length ds \<le> int_max_str_digits)))
   \<and> (title_link entry = None \<longrightarrow> extract_book_info E entry = None)"
proof -
  let ?ok = "(\<forall>a. title_link entry = Some a \<longrightarrow> resolves E a)
         \<and> (\<forall>a. author_link entry = Some a \<longrightarrow> resolves E a)
         \<and> (\<forall>ds. pages_digits entry = Some ds \<longrightarrow> length ds \<le> int_max_str_digits)"
  have titled: "\<exists>a. title_link entry = Some a \<and> get_text_strip a \<noteq> []"
    if "extract_book_info E entry = Some b" for b
  proof -
    from that have f: "extract_fields E entry = Inr b" and t: "truthy (title b)"
      by (simp_all add: extract_book_info_Some)
    from extract_fields_title [OF f] t show ?thesis
      by (auto simp: truthy_def split: option.splits)
  qed
  have kept: "extract_book_info E entry \<noteq> None"
    if ok: ?ok and a: "title_link entry = Some a" and n: "get_text_strip a \<noteq> []" for a
  proof -
    from ok obtain b where f: "extract_fields E entry = Inr b"
      using extract_fields_ok [of E entry] by blast
    from extract_fields_title [OF f] a n have "truthy (title b)"
      by (simp add: truthy_def)
    with f show ?thesis
      by (simp add: extract_book_info_def)
  qed
  have ok: ?ok if "extract_book_info E entry = Some b" for b
    using that extract_fields_ok [of E entry] by (auto simp: extract_book_info_Some)
  show ?thesis
    using titled kept ok by (cases "extract_book_info E entry") auto
qed


subsection \<open>The example rows\<close>

lemma title_link_row_paradise: "title_link row_paradise = Some link_paradise"
  by (simp add: title_link_def row_paradise_def cell_def find_first_def find_all_def
      any_node_def star_def link_paradise_def)

lemma get_text_strip_link_paradise: "get_text_strip link_paradise = ''This Side of Paradise''"
  by (simp add: link_paradise_def get_text_strip_def strip_def is_space_def)

lemma author_link_row_paradise:
  "author_link row_paradise
     = Some (Elem ''a'' None (Some ''/author/show/3190'') [Text ''Fitzgerald, F. Scott''])"
  by (simp add: author_link_def row_paradise_def cell_def find_first_def find_all_def
      any_node_def star_def link_paradise_def)

lemma pages_digits_row_paradise: "pages_digits row_paradise = Some ''305''"
  by (simp add: pages_digits_def value_elem_def row_paradise_def cell_def find_first_def
      find_all_def any_node_def star_def link_paradise_def get_text_strip_def strip_def
      is_space_def search_digits_def is_digit_def)

lemma resolves_demo_env: "resolves (demo_env web) a"
  by (simp add: resolves_def demo_env_def)

lemma title_link_row_untitled: "title_link row_untitled = None"
  by (simp add: title_link_def row_untitled_def cell_def find_first_def find_all_def
      any_node_def)

theorem extract_book_info_iff_witness:
  "extract_book_info (demo_env offline) row_paradise \<noteq> None
   \<and> extract_book_info (demo_env offline) row_untitled = None"
  using extract_book_info_iff [of "demo_env offline" row_paradise]
    extract_book_info_iff [of "demo_env offline" row_untitled]
  by (simp add: title_link_row_paradise get_text_strip_link_paradise author_link_row_paradise
      pages_digits_row_paradise resolves_demo_env int_max_str_digits_def
      title_link_row_untitled)

lemma strip_replicate: "\<not> is_space c \<Longrightarrow> strip (replicate n c) = replicate n c"
  by (simp add: strip_def)

lemma search_digits_replicate:
  "is_digit c \<Longrightarrow> 0 < n \<Longrightarrow> search_digits (replicate n c) = Some (replicate n c)"
  by (cases n) (simp_all add: search_digits_def)

lemma long_digits_props:
  "strip long_digits = long_digits" "long_digits \<noteq> []" "long_digits \<noteq> ''None''"
  "search_digits long_digits = Some long_digits" "length long_digits = 4301"
proof -
  show "strip long_digits = long_digits"
    unfolding long_digits_def by (rule strip_replicate) (simp add: is_space_def)
  show "search_digits long_digits = Some long_digits"
    unfolding long_digits_def by (rule search_digits_replicate) (simp_all add: is_digit_def)
  show 1: "length long_digits = 4301"
    by (simp add: long_digits_def)
  from 1 show "long_digits \<noteq> []"
    by auto
  show "long_digits \<noteq> ''None''"
  proof
    assume "long_digits = ''None''"
    then have "length long_digits = length ''None''"
      by (rule arg_cong)
    with 1 show False by simp
  qed
qed

lemma title_link_row_long_pages: "title_link row_long_pages = Some link_paradise"
  by (simp add: title_link_def row_long_pages_def cell_def find_first_def find_all_def
      any_node_def link_paradise_def)

lemma pages_digits_row_long_pages: "pages_digits row_long_pages = Some long_digits"
  by (simp add: pages_digits_def value_elem_def row_long_pages_def cell_def find_first_def
      find_all_def any_node_def link_paradise_def get_text_strip_def long_digits_props)

text \<open>
  A row with the title ``This Side of Paradise'' and a page count of 4301 digits: the
  conversion of the page count raises, the handler returns \<open>None\<close>, and the row yields
  no record although its title was read.
\<close>

theorem extract_book_info_long_pages:
  "extract_book_info (demo_env offline) row_long_pages = None
   \<and> title_link row_long_pages = Some link_paradise
   \<and> get_text_strip link_paradise = ''This Side of Paradise''"
proof -
  have "\<not> (\<exists>b. extract_fields (demo_env offline) row_long_pages = Inr b)"
    unfolding extract_fields_ok
    by (simp add: pages_digits_row_long_pages long_digits_props int_max_str_digits_def)
  then have "extract_book_info (demo_env offline) row_long_pages = None"
    by (auto simp: extract_book_info_def split: sum.splits)
  then show ?thesis
    by (simp add: title_link_row_long_pages get_text_strip_link_paradise)
qed

text \<open>The same happens when the target of the title link does not resolve.\<close>

lemma extract_book_info_bad_href:
  "extract_book_info strict_env row_bad_href = None
   \<and> map_option get_text_strip (title_link row_bad_href) = Some ''This Side of Paradise''"
  by code_simp

subsection \<open>The year of publication\<close>

lemma search_d4_Cons:
  "search_d4 (c # cs) = (if d4_at (c # cs) 0 then Some (take 4 (c # cs)) else search_d4 cs)"
  by (simp add: d4_at_def)

lemma d4_at_Suc: "d4_at (c # cs) (Suc i) = d4_at cs i"
  by (simp add: d4_at_def add.commute)

lemma d4_at_Nil: "\<not> d4_at [] i"
  by (simp add: d4_at_def)

lemma search_d4_first:
  "d4_at t i \<Longrightarrow> (\<forall>j<i. \<not> d4_at t j) \<Longrightarrow> search_d4 t = Some (take 4 (drop i t))"
proof (induction t arbitrary: i)
  case Nil
  then show ?case by (simp add: d4_at_Nil)
next
  case (Cons c cs)
  show ?case
  proof (cases i)
    case 0
    with Cons.prems(1) show ?thesis by (simp add: search_d4_Cons del: search_d4.simps)
  next
    case (Suc k)
    with Cons.prems have here: "\<not> d4_at (c # cs) 0" and k: "d4_at cs k"
      and before: "\<forall>j<k. \<not> d4_at cs j"
      using d4_at_Suc [of c cs] by auto
    from here have "search_d4 (c # cs) = search_d4 cs"
      by (simp add: search_d4_Cons del: search_d4.simps)
    with Cons.IH [OF k before] Suc show ?thesis by simp
  qed
qed

lemma search_d4_none: "(\<forall>i. \<not> d4_at t i) \<Longrightarrow> search_d4 t = None"
proof (induction t)
  case Nil
  show ?case by simp
next
  case (Cons c cs)
  from Cons.prems have "\<not> d4_at (c # cs) 0" and "\<forall>i. \<not> d4_at cs i"
    using d4_at_Suc [of c cs] by auto
  with Cons.IH show ?case by (simp add: search_d4_Cons del: search_d4.simps)
qed

text \<open>
  Claim C3. Let \<open>t\<close> be the stripped text of the value element of the publish-date cell
  of a row that yields a record. If \<open>t\<close> is empty or is \<open>None\<close>, the record has no
  \<open>publish_date\<close>. Otherwise, if four digits in a row occur in \<open>t\<close>, \<open>publish_date\<close> is
  exactly the four digits at the first position where they do; if they occur nowhere,
  \<open>publish_date\<close> is \<open>t\<close> itself.
\<close>

theorem publish_date_year:
  assumes "extract_book_info E entry = Some b"
    and "value_elem ''field date_pub'' entry = Some v"
  shows "(get_text_strip v = [] \<or> get_text_strip v = ''None'' \<longrightarrow> publish_date b = None)
    \<and> (get_text_strip v \<noteq> [] \<and> get_text_strip v \<noteq> ''None'' \<longrightarrow>
         (\<forall>i. d4_at (get_text_strip v) i \<and> (\<forall>j<i. \<not> d4_at (get_text_strip v) j)
                \<longrightarrow> publish_date b = Some (take 4 (drop i (get_text_strip v))))
         \<and> ((\<forall>i. \<not> d4_at (get_text_strip v) i) \<longrightarrow> publish_date b = Some (get_text_strip v)))"
proof -
  from assms(1) have "extract_fields E entry = Inr b"
    by (simp add: extract_book_info_Some)
  from extract_fields_publish_date [OF this] assms(2)
  have "publish_date b =
          (if get_text_strip v = [] \<or> get_text_strip v = ''None'' then None
           else (case search_d4 (get_text_strip v) of
                   Some year \<Rightarrow> Some year
                 | None \<Rightarrow> Some (get_text_strip v)))"
    by simp
  then show ?thesis
    by (auto simp: search_d4_first search_d4_none)
qed

lemma value_date_pub_row_paradise:
  "value_elem ''field date_pub'' row_paradise
     = Some (Elem ''div'' (Some [''value'']) None [Text '' Mar 26, 1920 ''])"
  by (simp add: value_elem_def row_paradise_def cell_def find_first_def find_all_def
      any_node_def star_def link_paradise_def)

lemma extract_row_paradise:
  "extract_book_info (demo_env offline) row_paradise
     = Some \<lparr>title = Some ''This Side of Paradise'', author = Some ''Fitzgerald, F. Scott'',
             publish_date = Some ''1920'', isbn = None, rating = Some 3, avg_rating = None,
             pages = Some 305, book_url = Some ''https://www.goodreads.com/book/show/46165'',
             author_url = Some ''https://www.goodreads.com/author/show/3190'', shelf = None\<rparr>"
  by code_simp


lemma all_less_list_all: "(\<forall>j<n. P j) = list_all P [0..<n]"
  by (auto simp: list_all_iff)

text \<open>The text ``Mar 26, 1920'' gives the year 1920.\<close>

theorem publish_date_year_witness:
  "map_option publish_date (extract_book_info (demo_env offline) row_paradise)
     = Some (Some ''1920'')"
proof -
  obtain b where e: "extract_book_info (demo_env offline) row_paradise = Some b"
    using extract_row_paradise by blast
  let ?v = "Elem ''div'' (Some [''value'']) None [Text '' Mar 26, 1920 '']"
  have t: "get_text_strip ?v = ''Mar 26, 1920''"
    by code_simp
  have at: "d4_at ''Mar 26, 1920'' 8"
    by code_simp
  have before: "\<forall>j<8. \<not> d4_at ''Mar 26, 1920'' j"
    unfolding all_less_list_all by code_simp
  from publish_date_year [OF e value_date_pub_row_paradise] t at before
  have "publish_date b = Some (take 4 (drop 8 ''Mar 26, 1920''))"
    by simp
  with e show ?thesis by simp
qed

subsection \<open>The rating\<close>

lemma filled_stars_eq:
  "filled_stars v = length (filter has_p10 (find_all ''span'' (class_is ''staticStar'') v))"
  by (auto simp: filled_stars_def filled_star_def find_all_def
      intro!: arg_cong [where f = length] filter_cong)

text \<open>
  Claim C4, as the code has it. For a row that yields a record and has a rating cell with
  a value element, \<open>rating\<close> is the number of filled stars in the value element, and it
  is present if and only if that number is greater than zero. When present it is at least
  1 and at most the number of star elements in the value element; the code sets no other
  upper bound.
\<close>

theorem rating_counts_filled_stars:
  assumes "extract_book_info E entry = Some b"
    and "value_elem ''field rating'' entry = Some v"
  shows "rating b = (if 0 < filled_stars v then Some (int (filled_stars v)) else None)
    \<and> (\<forall>r. rating b = Some r \<longrightarrow>
           1 \<le> r \<and> r \<le> int (length (find_all ''span'' (class_is ''staticStar'') v)))"
proof -
  from assms(1) have "extract_fields E entry = Inr b"
    by (simp add: extract_book_info_Some)
  from extract_fields_rating [OF this] assms(2)
  have r: "rating b = (if 0 < filled_stars v then Some (int (filled_stars v)) else None)"
    by (simp add: filled_stars_eq Let_def)
  have "filled_stars v \<le> length (find_all ''span'' (class_is ''staticStar'') v)"
    by (simp add: filled_stars_eq)
  with r show ?thesis
    by (auto split: if_splits)
qed

lemma value_rating_row_paradise:
  "value_elem ''field rating'' row_paradise
     = Some (Elem ''div'' (Some [''value'']) None
               [star ''p10'', star ''p10'', star ''p10'', star ''p0'', star ''p0''])"
  by code_simp

theorem rating_counts_filled_stars_witness:
  "map_option rating (extract_book_info (demo_env offline) row_paradise) = Some (Some 3)"
proof -
  obtain b where e: "extract_book_info (demo_env offline) row_paradise = Some b"
    using extract_row_paradise by blast
  have n: "filled_stars (Elem ''div'' (Some [''value'']) None
             [star ''p10'', star ''p10'', star ''p10'', star ''p0'', star ''p0'']) = 3"
    by code_simp
  from rating_counts_filled_stars [OF e value_rating_row_paradise] n
  have "rating b = Some 3"
    by simp
  with e show ?thesis by simp
qed

text \<open>Six filled stars give the rating 6.\<close>

theorem rating_six_stars:
  "map_option rating (extract_book_info (demo_env offline) row_six_stars) = Some (Some 6)"
  by code_simp

section \<open>The exporter: header and one row per record\<close>

lemma csv_row_columns:
  "csv_row b =
     [or_empty CStr (title b), or_empty CStr (author b), or_empty CStr (publish_date b),
      or_empty CStr (isbn b), or_empty CInt (rating b), or_empty CFloat (avg_rating b),
      or_empty CInt (pages b), or_empty CStr (book_url b), or_empty CStr (author_url b),
      or_empty CStr (shelf b)]"
  by (simp add: csv_row_def fieldnames_def book_get_def or_empty_def split: option.splits)

text \<open>Writing goes through when no write raises; what was written is a prefix in any case.\<close>

lemma write_rows_all:
  "(\<forall>j<length rows. fwrite E name (k + j) = None) \<Longrightarrow> write_rows E name k rows = (rows, None)"
proof (induction rows arbitrary: k)
  case Nil
  show ?case by simp
next
  case (Cons row rows)
  from Cons.prems [rule_format, of 0] have here: "fwrite E name k = None"
    by simp
  have "\<forall>j<length rows. fwrite E name (Suc k + j) = None"
  proof (intro allI impI)
    fix j assume "j < length rows"
    with Cons.prems [rule_format, of "Suc j"] show "fwrite E name (Suc k + j) = None"
      by simp
  qed
  from Cons.IH [OF this] here show ?case
    by simp
qed


text \<open>When the file cannot be opened, the error is printed and nothing is written.\<close>

lemma save_to_csv_unwritable:
  "books \<noteq> [] \<Longrightarrow> fopen E filename = Some e \<Longrightarrow>
     save_to_csv E books filename = [Print (''Error saving to CSV: '' @ exn_str e)]"
  by (simp add: save_to_csv_def)

text \<open>
  Claim C5, as the code has it. The export of an empty sequence of records writes no file
  and prints one notice. The export of \<open>n\<close> records, when the file opens and the \<open>n + 1\<close>
  writes to it and its closing do not raise, writes one file: a header row with the
  columns title, author, publish_date, isbn, rating, avg_rating, pages, book_url,
  author_url, shelf, then exactly \<open>n\<close> rows, one per record in the order of the sequence,
  each with its fields in the order of the columns and with the empty string where the
  record lacks the field. When the file cannot be opened, no file is written and the
  error is printed.
\<close>

theorem save_to_csv_rows:
  "(books = [] \<longrightarrow> save_to_csv E books filename = [Print ''No books to save''])
   \<and> (books \<noteq> [] \<and> fopen E filename = None \<and> (\<forall>k\<le>length books. fwrite E filename k = None)
        \<and> fclose E filename = None \<longrightarrow>
        (\<exists>rows. save_to_csv E books filename
                   = [Csv_write filename rows, Print (''Books saved to '' @ filename)]
           \<and> length rows = length books + 1
           \<and> hd rows = map CStr [''title'', ''author'', ''publish_date'', ''isbn'', ''rating'',
                                  ''avg_rating'', ''pages'', ''book_url'', ''author_url'',
                                  ''shelf'']
           \<and> tl rows = map (\<lambda>b. [or_empty CStr (title b), or_empty CStr (author b),
                                   or_empty CStr (publish_date b), or_empty CStr (isbn b),
                                   or_empty CInt (rating b), or_empty CFloat (avg_rating b),
                                   or_empty CInt (pages b), or_empty CStr (book_url b),
                                   or_empty CStr (author_url b), or_empty CStr (shelf b)])
                          books))
   \<and> (\<forall>e. books \<noteq> [] \<and> fopen E filename = Some e \<longrightarrow>
         save_to_csv E books filename = [Print (''Error saving to CSV: '' @ exn_str e)])"
proof (intro conjI impI allI)
  assume "books = []"
  then show "save_to_csv E books filename = [Print ''No books to save'']"
    by (simp add: save_to_csv_def)
next
  let ?rows = "map CStr fieldnames # map csv_row books"
  assume a: "books \<noteq> [] \<and> fopen E filename = None
               \<and> (\<forall>k\<le>length books. fwrite E filename k = None) \<and> fclose E filename = None"
  then have "\<forall>j<length ?rows. fwrite E filename (0 + j) = None"
    by simp
  then have "write_rows E filename 0 ?rows = (?rows, None)"
    by (rule write_rows_all)
  with a have "save_to_csv E books filename
                 = [Csv_write filename ?rows, Print (''Books saved to '' @ filename)]"
    by (simp add: save_to_csv_def)
  then show "\<exists>rows. save_to_csv E books filename
                   = [Csv_write filename rows, Print (''Books saved to '' @ filename)]
           \<and> length rows = length books + 1
           \<and> hd rows = map CStr [''title'', ''author'', ''publish_date'', ''isbn'', ''rating'',
                                  ''avg_rating'', ''pages'', ''book_url'', ''author_url'',
                                  ''shelf'']
           \<and> tl rows = map (\<lambda>b. [or_empty CStr (title b), or_empty CStr (author b),
                                   or_empty CStr (publish_date b), or_empty CStr (isbn b),
                                   or_empty CInt (rating b), or_empty CFloat (avg_rating b),
                                   or_empty CInt (pages b), or_empty CStr (book_url b),
                                   or_empty CStr (author_url b), or_empty CStr (shelf b)])
                          books"
    by (intro exI [of _ ?rows]) (simp add: csv_row_columns fieldnames_def)
next
  fix e assume "books \<noteq> [] \<and> fopen E filename = Some e"
  then show "save_to_csv E books filename = [Print (''Error saving to CSV: '' @ exn_str e)]"
    by (simp add: save_to_csv_unwritable)
qed

text \<open>
  A file system that refuses to open the file: one record is exported, the error is
  printed and there is no file.
\<close>

theorem save_to_csv_read_only:
  "save_to_csv read_only_env [book_paradise] ''ann_goodreads_books.csv''
     = [Print ''Error saving to CSV: [Errno 13] Permission denied'']"
  by code_simp

theorem save_to_csv_rows_witness:
  "save_to_csv (demo_env offline) [] ''ann_goodreads_books.csv'' = [Print ''No books to save'']
   \<and> save_to_csv (demo_env offline) [book_paradise, book_dune] ''ann_goodreads_books.csv''
       = [Csv_write ''ann_goodreads_books.csv''
            [[CStr ''title'', CStr ''author'', CStr ''publish_date'', CStr ''isbn'',
              CStr ''rating'', CStr ''avg_rating'', CStr ''pages'', CStr ''book_url'',
              CStr ''author_url'', CStr ''shelf''],
             [CStr ''This Side of Paradise'', CStr ''Fitzgerald, F. Scott'', CStr ''1920'',
              CStr [], CInt 3, CStr [], CInt 305,
              CStr ''https://www.goodreads.com/book/show/46165'',
              CStr ''https://www.goodreads.com/author/show/3190'', CStr ''read''],
             [CStr ''Dune'', CStr [], CStr [], CStr [], CStr [], CFloat 4.25, CStr [],
              CStr ''https://www.goodreads.com/book/show/44767458'', CStr [],
              CStr ''currently-reading'']],
          Print ''Books saved to ann_goodreads_books.csv'']
   \<and> fopen read_only_env ''ann_goodreads_books.csv''
       = Some (OSError ''[Errno 13] Permission denied'')
   \<and> save_to_csv read_only_env [book_dune] ''ann_goodreads_books.csv''
       = [Print ''Error saving to CSV: [Errno 13] Permission denied'']"
proof -
  have f: "fopen read_only_env ''ann_goodreads_books.csv''
             = Some (OSError ''[Errno 13] Permission denied'')"
    by (simp add: read_only_env_def)
  from save_to_csv_rows [of "[book_dune]" read_only_env "''ann_goodreads_books.csv''",
      THEN conjunct2, THEN conjunct2, rule_format,
      of "OSError ''[Errno 13] Permission denied''"] f
  have 3: "save_to_csv read_only_env [book_dune] ''ann_goodreads_books.csv''
             = [Print ''Error saving to CSV: [Errno 13] Permission denied'']"
    by simp
  have o: "fopen (demo_env offline) ''ann_goodreads_books.csv'' = None"
    "\<forall>k\<le>length [book_paradise, book_dune].
       fwrite (demo_env offline) ''ann_goodreads_books.csv'' k = None"
    "fclose (demo_env offline) ''ann_goodreads_books.csv'' = None"
    by (simp_all add: demo_env_def)
  from save_to_csv_rows [of "[]" "demo_env offline" "''ann_goodreads_books.csv''"]
  have 1: "save_to_csv (demo_env offline) [] ''ann_goodreads_books.csv''
             = [Print ''No books to save'']"
    by simp
  from save_to_csv_rows [of "[book_paradise, book_dune]" "demo_env offline"
      "''ann_goodreads_books.csv''"] o
  obtain rows where s: "save_to_csv (demo_env offline) [book_paradise, book_dune]
        ''ann_goodreads_books.csv''
      = [Csv_write ''ann_goodreads_books.csv'' rows,
         Print (''Books saved to '' @ ''ann_goodreads_books.csv'')]"
    and n: "length rows = 3"
    and h: "hd rows = map CStr [''title'', ''author'', ''publish_date'', ''isbn'', ''rating'',
                                  ''avg_rating'', ''pages'', ''book_url'', ''author_url'',
                                  ''shelf'']"
    and t: "tl rows = map (\<lambda>b. [or_empty CStr (title b), or_empty CStr (author b),
                                   or_empty CStr (publish_date b), or_empty CStr (isbn b),
                                   or_empty CInt (rating b), or_empty CFloat (avg_rating b),
                                   or_empty CInt (pages b), or_empty CStr (book_url b),
                                   or_empty CStr (author_url b), or_empty CStr (shelf b)])
                          [book_paradise, book_dune]"
    by auto
  from n have "rows = hd rows # tl rows"
    by (cases rows) simp_all
  with h t have "rows = [[CStr ''title'', CStr ''author'', CStr ''publish_date'', CStr ''isbn'',
              CStr ''rating'', CStr ''avg_rating'', CStr ''pages'', CStr ''book_url'',
              CStr ''author_url'', CStr ''shelf''],
             [CStr ''This Side of Paradise'', CStr ''Fitzgerald, F. Scott'', CStr ''1920'',
              CStr [], CInt 3, CStr [], CInt 305,
              CStr ''https://www.goodreads.com/book/show/46165'',
              CStr ''https://www.goodreads.com/author/show/3190'', CStr ''read''],
             [CStr ''Dune'', CStr [], CStr [], CStr [], CStr [], CFloat 4.25, CStr [],
              CStr ''https://www.goodreads.com/book/show/44767458'', CStr [],
              CStr ''currently-reading'']]"
    by (simp add: book_paradise_def book_dune_def or_empty_def)
  with 1 s f 3 show ?thesis by simp
qed

section \<open>The entry locator: the first search that finds anything\<close>

lemma find_first_None: "(find_first nm P nd = None) = (find_all nm P nd = [])"
  by (simp add: find_first_def split: list.splits)

lemma has_book_link_find: "(find_first ''a'' href_book_show d \<noteq> None) = has_book_link d"
  by (auto simp: find_first_None find_all_def has_book_link_def book_link_def list_ex_iff
      filter_empty_conv)

lemma has_book_link_find_Some:
  "(\<exists>a. find_first ''a'' href_book_show d = Some a) = has_book_link d"
  using has_book_link_find [of d] by simp

text \<open>
  Claim C2. The locator runs its searches in the fixed order marked rows, table rows with
  a link to a book, containers with a link to a book: the searches run are the first one,
  two or three of that order; every search before the last one run found nothing; the
  entries returned are those of the last one run, and they are not empty unless all three
  ran. In particular, when the first search finds nothing and the second finds three
  rows, those three rows are returned and the third search does not run. The three
  searches select, in document order, the rows of class \<open>bookalike\<close>, the rows that
  contain a link to a book, and the \<open>div\<close> elements of a class matching
  \<open>book|item|entry\<close> that contain such a link.
\<close>

theorem locate_entries_fallback:
  "(\<exists>n\<in>{1, 2, 3}. fst (locate_entries soup) = take n all_scans)
   \<and> snd (locate_entries soup) = scan_result (last (fst (locate_entries soup))) soup
   \<and> (\<forall>s\<in>set (butlast (fst (locate_entries soup))). scan_result s soup = [])
   \<and> (last (fst (locate_entries soup)) \<noteq> Book_divs \<longrightarrow> snd (locate_entries soup) \<noteq> [])
   \<and> (strategy1 soup = [] \<and> length (strategy2 soup) = 3 \<longrightarrow>
        snd (locate_entries soup) = strategy2 soup
        \<and> Book_divs \<notin> set (fst (locate_entries soup)))
   \<and> strategy1 soup
       = filter (\<lambda>d. is_elem d \<and> el_name d = ''tr'' \<and> class_is ''bookalike'' d)
           (descendants soup)
   \<and> strategy2 soup
       = filter (\<lambda>d. is_elem d \<and> el_name d = ''tr'' \<and> has_book_link d) (descendants soup)
   \<and> strategy3 soup
       = filter (\<lambda>d. is_elem d \<and> el_name d = ''div'' \<and> class_book_item_entry d
                      \<and> has_book_link d) (descendants soup)"
proof -
  have 1: "strategy1 soup
       = filter (\<lambda>d. is_elem d \<and> el_name d = ''tr'' \<and> class_is ''bookalike'' d)
           (descendants soup)"
    by (simp add: strategy1_def find_all_def)
  have 2: "strategy2 soup
       = filter (\<lambda>d. is_elem d \<and> el_name d = ''tr'' \<and> has_book_link d) (descendants soup)"
    by (simp add: strategy2_def find_all_def has_book_link_find_Some any_node_def)
  have 3: "strategy3 soup
       = filter (\<lambda>d. is_elem d \<and> el_name d = ''div'' \<and> class_book_item_entry d
                      \<and> has_book_link d) (descendants soup)"
    by (simp add: strategy3_def find_all_def has_book_link_find_Some conj_assoc)
  have 4: "(\<exists>n\<in>{1, 2, 3}. fst (locate_entries soup) = take n all_scans)
   \<and> snd (locate_entries soup) = scan_result (last (fst (locate_entries soup))) soup
   \<and> (\<forall>s\<in>set (butlast (fst (locate_entries soup))). scan_result s soup = [])
   \<and> (last (fst (locate_entries soup)) \<noteq> Book_divs \<longrightarrow> snd (locate_entries soup) \<noteq> [])
   \<and> (strategy1 soup = [] \<and> length (strategy2 soup) = 3 \<longrightarrow>
        snd (locate_entries soup) = strategy2 soup
        \<and> Book_divs \<notin> set (fst (locate_entries soup)))"
    by (auto simp: locate_entries_def Let_def all_scans_def)
  from 1 2 3 4 show ?thesis by blast
qed

theorem locate_entries_fallback_witness:
  "strategy1 page_plain_rows = []
   \<and> snd (locate_entries page_plain_rows)
       = [plain_row ''/book/show/1'', plain_row ''/book/show/2'', plain_row ''/book/show/3'']
   \<and> Book_divs \<notin> set (fst (locate_entries page_plain_rows))
   \<and> strategy3 page_plain_rows \<noteq> []"
proof -
  have 1: "strategy1 page_plain_rows = []"
    by code_simp
  have 2: "strategy2 page_plain_rows
             = [plain_row ''/book/show/1'', plain_row ''/book/show/2'', plain_row ''/book/show/3'']"
    by code_simp
  have 3: "strategy3 page_plain_rows \<noteq> []"
    by code_simp
  from locate_entries_fallback [of page_plain_rows]
  have "strategy1 page_plain_rows = [] \<and> length (strategy2 page_plain_rows) = 3 \<longrightarrow>
          snd (locate_entries page_plain_rows) = strategy2 page_plain_rows
          \<and> Book_divs \<notin> set (fst (locate_entries page_plain_rows))"
    by blast
  with 1 2 3 show ?thesis
    by simp
qed

section \<open>The pager: where the loop stops\<close>

lemma requests_append: "requests (a @ b) = requests a @ requests b"
  by (simp add: requests_def)

lemma requests_Nil: "requests [] = []"
  by (simp add: requests_def)

lemma requests_map_Scan: "requests (map Scan scans) = []"
  by (induction scans) (simp_all add: requests_def)

lemma extract_page_Nil: "extract_page E sh [] = []"
  by (simp add: extract_page_def List.map_filter_simps)

text \<open>One turn of the loop, when no reason to stop holds and when one does.\<close>

lemma requests_get: "requests (Http_get u # tr) = u # requests tr"
  by (simp add: requests_def)

lemma requests_write_debug: "requests (fst (write_debug E name content)) = []"
  by (simp add: write_debug_def requests_def split: option.splits)

text \<open>The debug file of a page that was served: what is recorded, and what it raises.\<close>

lemma dump_cases:
  obtains dump raised where
    "(if i = 1 then write_debug E (debug_file sh username) (prettify E soup) else ([], None))
       = (dump, raised)"
    "requests dump = []"
    "(if i = 1 then snd (write_debug E (debug_file sh username) (prettify E soup)) else None)
       = raised"
proof (cases "i = 1")
  case True
  obtain dump raised where
    w: "write_debug E (debug_file sh username) (prettify E soup) = (dump, raised)"
    by (cases "write_debug E (debug_file sh username) (prettify E soup)")
  with requests_write_debug [of E "debug_file sh username" "prettify E soup"]
  have "requests dump = []"
    by simp
  with True w that show ?thesis
    by simp
next
  case False
  with that [of "[]" None] show ?thesis
    by (simp add: requests_def)
qed

lemma scrape_page_goes_on:
  assumes "goes_on E sh username i"
  shows "\<exists>tr. requests tr = [shelf_url sh username i]
           \<and> scrape_page E sh username i books
               = (tr, Next_page (books @ page_records E sh username i))"
proof -
  from assms obtain soup where soup: "http_get E (shelf_url sh username i) = Inr soup"
    by (auto simp: goes_on_def fetch_fails_def split: sum.splits)
  with assms
  have none: "(if i = 1 then snd (write_debug E (debug_file sh username) (prettify E soup))
               else None) = None"
    and entries: "snd (locate_entries soup) \<noteq> []"
    and records: "extract_page E sh (snd (locate_entries soup)) \<noteq> []"
    and nxt: "find_first ''a'' (class_is ''next_page'') soup \<noteq> None"
    by (simp_all add: goes_on_def page_raises_def page_entries_def page_records_def
        page_has_next_def)
  obtain dump raised where
    d: "(if i = 1 then write_debug E (debug_file sh username) (prettify E soup) else ([], None))
          = (dump, raised)" and
    rd: "requests dump = []" and
    r': "(if i = 1 then snd (write_debug E (debug_file sh username) (prettify E soup)) else None)
          = raised"
    by (rule dump_cases)
  from none r' have raised: "raised = None"
    by simp
  from soup have r: "page_records E sh username i = extract_page E sh (snd (locate_entries soup))"
    by (simp add: page_records_def page_entries_def)
  show ?thesis
    using soup entries records nxt rd
    by (simp add: scrape_page_def Let_def d raised r split_beta requests_append
        requests_map_Scan requests_get) (simp add: requests_def)
qed

lemma scrape_page_stops:
  assumes "\<not> goes_on E sh username i"
  shows "\<exists>tr. requests tr = [shelf_url sh username i]
           \<and> scrape_page E sh username i books
               = (tr, case page_raises E sh username i of
                        Some e \<Rightarrow> Raise e
                      | None \<Rightarrow> Break (books @ page_records E sh username i))"
proof (cases "http_get E (shelf_url sh username i)")
  case (Inl e)
  then show ?thesis
    by (simp add: scrape_page_def page_raises_def page_records_def page_entries_def
        extract_page_Nil requests_def)
next
  case (Inr soup)
  then have r: "page_records E sh username i = extract_page E sh (snd (locate_entries soup))"
    by (simp add: page_records_def page_entries_def)
  obtain dump raised where
    d: "(if i = 1 then write_debug E (debug_file sh username) (prettify E soup) else ([], None))
          = (dump, raised)" and
    rd: "requests dump = []" and
    r': "(if i = 1 then snd (write_debug E (debug_file sh username) (prettify E soup)) else None)
          = raised"
    by (rule dump_cases)
  from Inr r' have p: "page_raises E sh username i = raised"
    by (simp add: page_raises_def)
  show ?thesis
  proof (cases raised)
    case (Some e)
    with Inr rd show ?thesis
      by (simp add: scrape_page_def Let_def d p requests_get)
  next
    case None
    with Inr assms p
    have stop: "snd (locate_entries soup) = [] \<or> extract_page E sh (snd (locate_entries soup)) = []
                \<or> find_first ''a'' (class_is ''next_page'') soup = None"
      by (auto simp: goes_on_def fetch_fails_def page_entries_def page_records_def
          page_has_next_def)
    from stop show ?thesis
      using Inr None rd
      by (auto simp: scrape_page_def Let_def d r p split_beta requests_append requests_map_Scan
          requests_get extract_page_Nil)
  qed
qed

text \<open>
  The whole loop from page \<open>page\<close> on: it requests the pages up to some last page \<open>l\<close> in
  order; no reason to stop holds before \<open>l\<close>; it stops below the cap only for a reason
  to stop; and it returns the records of the pages it went through, unless an exception
  leaves it at \<open>l\<close>.
\<close>

lemma scrape_pages_char:
  "\<exists>l. page - 1 \<le> l \<and> l \<le> max max_pages (page - 1)
       \<and> requests (fst (scrape_pages E sh username max_pages page books tr))
           = requests tr @ map (shelf_url sh username) [page..l]
       \<and> (\<forall>i. page \<le> i \<and> i < l \<longrightarrow> goes_on E sh username i)
       \<and> (l < max_pages \<longrightarrow> page \<le> l \<and> \<not> goes_on E sh username l)
       \<and> snd (scrape_pages E sh username max_pages page books tr)
           = (if page \<le> l
              then (case page_raises E sh username l of
                      Some e \<Rightarrow> Inl e
                    | None \<Rightarrow> Inr (books @ concat (map (page_records E sh username) [page..l])))
              else Inr books)"
proof (induction E sh username max_pages page books tr rule: scrape_pages.induct)
  case (1 E sh username max_pages page books tr)
  show ?case
  proof (cases "page \<le> max_pages")
    case False
    then have "scrape_pages E sh username max_pages page books tr = (tr, Inr books)"
      by (simp add: scrape_pages.simps)
    with False show ?thesis
      by (intro exI [of _ "page - 1"]) auto
  next
    case le: True
    show ?thesis
    proof (cases "goes_on E sh username page")
      case False
      from scrape_page_stops [OF False, of books] obtain tr1 where
        r: "requests tr1 = [shelf_url sh username page]" and
        s: "scrape_page E sh username page books
              = (tr1, case page_raises E sh username page of
                        Some e \<Rightarrow> Raise e
                      | None \<Rightarrow> Break (books @ page_records E sh username page))"
        by blast
      have "scrape_pages E sh username max_pages page books tr
              = (tr @ tr1, case page_raises E sh username page of
                             Some e \<Rightarrow> Inl e
                           | None \<Rightarrow> Inr (books @ page_records E sh username page))"
        using le s by (subst scrape_pages.simps) (simp split: option.splits)
      with False le r show ?thesis
        by (intro exI [of _ page]) (auto simp: requests_append upto_single split: option.splits)
    next
      case True
      from scrape_page_goes_on [OF True, of books] obtain tr1 where
        r: "requests tr1 = [shelf_url sh username page]" and
        s: "scrape_page E sh username page books
              = (tr1, Next_page (books @ page_records E sh username page))"
        by blast
      have unfold: "scrape_pages E sh username max_pages page books tr
              = scrape_pages E sh username max_pages (page + 1)
                  (books @ page_records E sh username page) (tr @ tr1)"
        using le s by (subst scrape_pages.simps) simp
      from "1.IH" [OF le s [symmetric] refl] obtain l where
        l1: "page \<le> l" and l2: "l \<le> max max_pages page" and
        l3: "requests (fst (scrape_pages E sh username max_pages (page + 1)
                (books @ page_records E sh username page) (tr @ tr1)))
              = requests (tr @ tr1) @ map (shelf_url sh username) [page + 1..l]" and
        l4: "\<forall>i. page + 1 \<le> i \<and> i < l \<longrightarrow> goes_on E sh username i" and
        l5: "l < max_pages \<longrightarrow> page + 1 \<le> l \<and> \<not> goes_on E sh username l" and
        l6: "snd (scrape_pages E sh username max_pages (page + 1)
                (books @ page_records E sh username page) (tr @ tr1))
              = (if page + 1 \<le> l
                 then (case page_raises E sh username l of
                         Some e \<Rightarrow> Inl e
                       | None \<Rightarrow> Inr ((books @ page_records E sh username page)
                                        @ concat (map (page_records E sh username) [page + 1..l])))
                 else Inr (books @ page_records E sh username page))"
        by auto
      have up: "[page..l] = page # [page + 1..l]"
        using l1 by (rule upto_rec1)
      have a: "page - 1 \<le> l \<and> l \<le> max max_pages (page - 1)"
        using l1 l2 le by auto
      have b: "requests (fst (scrape_pages E sh username max_pages page books tr))
                 = requests tr @ map (shelf_url sh username) [page..l]"
        using l3 r by (simp add: unfold up requests_append)
      have c: "\<forall>i. page \<le> i \<and> i < l \<longrightarrow> goes_on E sh username i"
      proof (intro allI impI)
        fix i assume i: "page \<le> i \<and> i < l"
        show "goes_on E sh username i"
        proof (cases "i = page")
          case True
          with \<open>goes_on E sh username page\<close> show ?thesis by simp
        next
          case False
          with i l4 show ?thesis by simp
        qed
      qed
      have d: "l < max_pages \<longrightarrow> page \<le> l \<and> \<not> goes_on E sh username l"
        using l5 l1 by simp
      have none: "page_raises E sh username page = None"
        using True by (simp add: goes_on_def)
      have e: "snd (scrape_pages E sh username max_pages page books tr)
           = (if page \<le> l
              then (case page_raises E sh username l of
                      Some e \<Rightarrow> Inl e
                    | None \<Rightarrow> Inr (books @ concat (map (page_records E sh username) [page..l])))
              else Inr books)"
      proof (cases "page + 1 \<le> l")
        case True
        with l6 l1 show ?thesis
          by (simp add: unfold up split: option.splits)
      next
        case False
        with l1 have "l = page" by simp
        with l6 none show ?thesis
          by (simp add: unfold upto_single)
      qed
      from a b c d e show ?thesis
        by blast
    qed
  qed
qed

lemma scrape_shelf_char:
  fixes E :: "'f env"
  shows "0 \<le> last_page E sh username max_pages
     \<and> last_page E sh username max_pages \<le> max max_pages 0
     \<and> requests (fst (scrape_shelf E sh username max_pages))
         = map (shelf_url sh username) [1..last_page E sh username max_pages]
     \<and> (\<forall>i. 1 \<le> i \<and> i < last_page E sh username max_pages \<longrightarrow> goes_on E sh username i)
     \<and> (last_page E sh username max_pages < max_pages \<longrightarrow>
          1 \<le> last_page E sh username max_pages
          \<and> \<not> goes_on E sh username (last_page E sh username max_pages))
     \<and> snd (scrape_shelf E sh username max_pages)
         = (if 1 \<le> last_page E sh username max_pages
            then (case page_raises E sh username (last_page E sh username max_pages) of
                    Some e \<Rightarrow> Inl e
                  | None \<Rightarrow> Inr (concat (map (page_records E sh username)
                                            [1..last_page E sh username max_pages])))
            else Inr [])"
proof -
  obtain k where raw:
    "1 - 1 \<le> k \<and> k \<le> max max_pages (1 - 1)
       \<and> requests (fst (scrape_pages E sh username max_pages 1 [] []))
           = requests ([] :: 'f event list) @ map (shelf_url sh username) [1..k]
       \<and> (\<forall>i. 1 \<le> i \<and> i < k \<longrightarrow> goes_on E sh username i)
       \<and> (k < max_pages \<longrightarrow> 1 \<le> k \<and> \<not> goes_on E sh username k)
       \<and> snd (scrape_pages E sh username max_pages 1 [] [])
           = (if 1 \<le> k
              then (case page_raises E sh username k of
                      Some e \<Rightarrow> Inl e
                    | None \<Rightarrow> Inr ([] @ concat (map (page_records E sh username) [1..k])))
              else Inr [])"
    using scrape_pages_char [of 1 max_pages E sh username "[]" "[]"] by blast
  from raw have k1: "0 \<le> k" and k2: "k \<le> max max_pages 0"
    by simp_all
  from raw have k3: "requests (fst (scrape_shelf E sh username max_pages))
           = map (shelf_url sh username) [1..k]"
    by (simp add: scrape_shelf_def requests_Nil)
  from raw have k4: "\<forall>i. 1 \<le> i \<and> i < k \<longrightarrow> goes_on E sh username i"
    and k5: "k < max_pages \<longrightarrow> 1 \<le> k \<and> \<not> goes_on E sh username k"
    by blast+
  from raw have k6: "snd (scrape_shelf E sh username max_pages)
           = (if 1 \<le> k
              then (case page_raises E sh username k of
                      Some e \<Rightarrow> Inl e
                    | None \<Rightarrow> Inr (concat (map (page_records E sh username) [1..k])))
              else Inr [])"
    by (cases "page_raises E sh username k") (simp_all add: scrape_shelf_def)
  from k1 k3 have lp: "last_page E sh username max_pages = k"
    by (simp add: last_page_def)
  from k1 k2 k3 k4 k5 k6 show ?thesis
    unfolding lp by blast
qed


lemma concat_upto_last:
  assumes "1 \<le> l" and "f l = []"
  shows "concat (map f [1..l]) = concat (map f [1..l - 1])"
proof -
  from assms(1) have "[1..l] = [1..l - 1] @ [l]"
    by (rule upto_rec2)
  with assms(2) show ?thesis by simp
qed

lemma page_records_served:
  "http_get E (shelf_url sh username i) = Inr soup \<Longrightarrow>
     page_records E sh username i = extract_page E sh (snd (locate_entries soup))"
  by (simp add: page_records_def page_entries_def)

lemma page_records_failed:
  "http_get E (shelf_url sh username i) = Inl e \<Longrightarrow> page_records E sh username i = []"
  by (simp add: page_records_def page_entries_def extract_page_Nil)

text \<open>A page that gives a reason to stop is the last page requested.\<close>

lemma stop_is_last:
  assumes "1 \<le> i" and "i \<le> last_page E sh username max_pages"
    and "\<not> goes_on E sh username i"
  shows "i = last_page E sh username max_pages"
proof (rule ccontr)
  assume "i \<noteq> last_page E sh username max_pages"
  with assms(1,2) have "1 \<le> i \<and> i < last_page E sh username max_pages"
    by simp
  with scrape_shelf_char [of E sh username max_pages] have "goes_on E sh username i"
    by blast
  with assms(3) show False by simp
qed

text \<open>
  Claim C6. A scrape of a shelf requests the pages 1 to \<open>last_page\<close> in order. If one
  of them was served and no record was extracted from it, then it is the last page
  requested, whether or not it links to a next page; and the scrape then returns the
  records of the pages before it (the one case apart where the debug file of page 1
  cannot be written, which leaves the function before any extraction).
\<close>

theorem no_request_after_empty_page:
  "requests (fst (scrape_shelf E sh username max_pages))
     = map (shelf_url sh username) [1..last_page E sh username max_pages]
   \<and> (\<forall>i soup. 1 \<le> i \<and> i \<le> last_page E sh username max_pages
          \<and> http_get E (shelf_url sh username i) = Inr soup
          \<and> extract_page E sh (snd (locate_entries soup)) = []
        \<longrightarrow> i = last_page E sh username max_pages
            \<and> (page_raises E sh username i = None \<longrightarrow>
                 snd (scrape_shelf E sh username max_pages)
                   = Inr (concat (map (page_records E sh username) [1..i - 1]))))"
proof (intro conjI allI impI)
  show "requests (fst (scrape_shelf E sh username max_pages))
     = map (shelf_url sh username) [1..last_page E sh username max_pages]"
    using scrape_shelf_char [of E sh username max_pages] by blast
next
  fix i soup
  assume a: "1 \<le> i \<and> i \<le> last_page E sh username max_pages
          \<and> http_get E (shelf_url sh username i) = Inr soup
          \<and> extract_page E sh (snd (locate_entries soup)) = []"
  then have none: "page_records E sh username i = []"
    by (simp add: page_records_served)
  then have "\<not> goes_on E sh username i"
    by (simp add: goes_on_def)
  with a show last: "i = last_page E sh username max_pages"
    by (intro stop_is_last) simp_all
  assume p: "page_raises E sh username i = None"
  from scrape_shelf_char [of E sh username max_pages] last a p
  have "snd (scrape_shelf E sh username max_pages)
          = Inr (concat (map (page_records E sh username) [1..i]))"
    by simp
  with a none show "snd (scrape_shelf E sh username max_pages)
                   = Inr (concat (map (page_records E sh username) [1..i - 1]))"
    by (simp add: concat_upto_last)
qed

text \<open>
  Claim C7. The loop of a shelf is a total function (it is defined by recursion on
  \<open>max_pages + 1 - page\<close>), and it requests at most \<open>max_pages\<close> pages, namely the pages 1
  to \<open>last_page\<close> in order. A page whose request fails, on which no entry is located,
  from which no record is extracted or which has no link to a next page is the last page
  requested; and when fewer than \<open>max_pages\<close> pages are requested, a reason to stop
  holds at the last one. Both shelf functions are this loop; with the default values of
  \<open>max_pages\<close> the shelf of read books takes at most 50 requests and the shelf of books
  being read at most 10.
\<close>

theorem pagination_bounded:
  "length (requests (fst (scrape_shelf E sh username max_pages))) \<le> nat max_pages
   \<and> requests (fst (scrape_shelf E sh username max_pages))
       = map (shelf_url sh username) [1..last_page E sh username max_pages]
   \<and> (\<forall>i. 1 \<le> i \<and> i \<le> last_page E sh username max_pages
          \<and> (fetch_fails E sh username i \<or> page_entries E sh username i = []
              \<or> page_records E sh username i = [] \<or> \<not> page_has_next E sh username i)
        \<longrightarrow> i = last_page E sh username max_pages)
   \<and> (last_page E sh username max_pages < max_pages \<longrightarrow>
        \<not> goes_on E sh username (last_page E sh username max_pages))
   \<and> scrape_read_books E username max_pages = scrape_shelf E Read_shelf username max_pages
   \<and> scrape_currently_reading E username max_pages
       = scrape_shelf E Currently_reading_shelf username max_pages
   \<and> length (requests (fst (scrape_read_books E username read_max_pages))) \<le> 50
   \<and> length (requests (fst (scrape_currently_reading E username currently_reading_max_pages)))
       \<le> 10"
proof -
  have bound: "length (requests (fst (scrape_shelf E sh username max_pages))) \<le> nat max_pages"
    for sh max_pages
    using scrape_shelf_char [of E sh username max_pages] by (auto simp: last_page_def)
  have stop: "i = last_page E sh username max_pages"
    if "1 \<le> i \<and> i \<le> last_page E sh username max_pages
          \<and> (fetch_fails E sh username i \<or> page_entries E sh username i = []
              \<or> page_records E sh username i = [] \<or> \<not> page_has_next E sh username i)" for i
  proof -
    from that have "\<not> goes_on E sh username i"
      by (auto simp: goes_on_def)
    with that show ?thesis
      by (intro stop_is_last) simp_all
  qed
  have "length (requests (fst (scrape_read_books E username read_max_pages))) \<le> 50"
    using bound [of Read_shelf read_max_pages]
    by (simp add: scrape_read_books_def read_max_pages_def)
  moreover
  have "length (requests (fst (scrape_currently_reading E username
          currently_reading_max_pages))) \<le> 10"
    using bound [of Currently_reading_shelf currently_reading_max_pages]
    by (simp add: scrape_currently_reading_def currently_reading_max_pages_def)
  ultimately show ?thesis
    using bound [of sh max_pages] stop scrape_shelf_char [of E sh username max_pages]
    by (simp add: scrape_read_books_def scrape_currently_reading_def)
qed

lemma requests_save_to_csv: "requests (save_to_csv E books filename) = []"
proof -
  obtain written raised where
    w: "write_rows E filename 0 (map CStr fieldnames # map csv_row books) = (written, raised)"
    by (cases "write_rows E filename 0 (map CStr fieldnames # map csv_row books)")
  then show ?thesis
    by (cases "fopen E filename"; cases raised; cases "fclose E filename")
      (simp_all add: save_to_csv_def requests_def)
qed

text \<open>
  What \<open>raise_for_status\<close> does with an answer: the statuses from 400 to 599 raise, every
  other status passes and the body is parsed.
\<close>

lemma status_error: "raise_for_status r \<noteq> None \<longleftrightarrow> 400 \<le> status_code r \<and> status_code r < 600"
  unfolding raise_for_status_def by (cases "status_code r < 500") simp_all

lemma raise_for_status_request: "raise_for_status r = Some e \<Longrightarrow> is_request_exception e"
  unfolding raise_for_status_def by (auto split: if_splits)

lemma fetch_error_iff:
  "fetch_error E url \<longleftrightarrow> (\<exists>m. http_get E url = Inl (RequestException m))"
proof (cases "session_get E url")
  case (Inl e)
  then show ?thesis
    by (cases e) (simp_all add: fetch_error_def http_get_def)
next
  case (Inr r)
  show ?thesis
  proof (cases "raise_for_status r")
    case None
    with Inr status_error [of r] show ?thesis
      by (simp add: fetch_error_def http_get_def)
  next
    case (Some e)
    with raise_for_status_request [of r e] obtain m where "e = RequestException m"
      by (cases e) simp_all
    with Some Inr status_error [of r] show ?thesis
      by (simp add: fetch_error_def http_get_def)
  qed
qed

lemma http_get_other_status:
  "session_get E url = Inr r \<Longrightarrow> \<not> (400 \<le> status_code r \<and> status_code r < 600) \<Longrightarrow>
     http_get E url = Inr (parsed_content r)"
  using status_error [of r] by (auto simp: http_get_def)

lemma scrape_profile_failed:
  "http_get E (get_profile_url username) = Inl (RequestException m) \<Longrightarrow>
     scrape_profile E username = ([Http_get (get_profile_url username)], Inr empty_profile)"
  by (simp add: scrape_profile_def)

lemma main_requests:
  assumes "snd (scrape_profile E username) = Inr p"
    and "snd (scrape_read_books E username read_max_pages) = Inr bs"
  shows "requests (fst (main E username))
           = requests (fst (scrape_profile E username))
             @ requests (fst (scrape_read_books E username read_max_pages))
             @ requests (fst (scrape_currently_reading E username currently_reading_max_pages))"
    and "snd (main E username)
           = (case snd (scrape_currently_reading E username currently_reading_max_pages) of
                Inl e \<Rightarrow> Inl e
              | Inr books \<Rightarrow> Inr ())"
  using assms
  by (auto simp: main_def Let_def requests_append requests_save_to_csv
      split: prod.splits sum.splits)

text \<open>
  Claim C8, as the code has it. A request fails when the transport raises a
  \<open>RequestException\<close> or when the answer has a status from 400 to 599, which
  \<open>raise_for_status\<close> turns into one. When the request of a page of a shelf fails, that
  page is the last page requested, and the scrape of the shelf returns, without raising,
  the records of the pages before it. When the request of the profile page fails, the
  profile operation returns the empty profile. An answer with any other status, a 1xx or
  a 3xx as well as a 2xx, is no failure: its body is parsed like a page that was served.
  And whenever the profile operation and the scrape of the read books return, as they do
  after a failed request, the run goes on to scrape the books being read; it ends with an
  exception only if that scrape raises one.
\<close>

theorem fetch_failure_is_contained:
  "(\<forall>i. 1 \<le> i \<and> i \<le> last_page E sh username max_pages
          \<and> fetch_error E (shelf_url sh username i)
        \<longrightarrow> i = last_page E sh username max_pages
            \<and> snd (scrape_shelf E sh username max_pages)
                = Inr (concat (map (page_records E sh username) [1..i - 1])))
   \<and> (fetch_error E (get_profile_url username)
        \<longrightarrow> scrape_profile E username
              = ([Http_get (get_profile_url username)], Inr empty_profile))
   \<and> (\<forall>r. session_get E url = Inr r \<and> \<not> (400 \<le> status_code r \<and> status_code r < 600)
        \<longrightarrow> \<not> fetch_error E url \<and> http_get E url = Inr (parsed_content r))
   \<and> (\<forall>p bs. snd (scrape_profile E username) = Inr p
          \<and> snd (scrape_read_books E username read_max_pages) = Inr bs
        \<longrightarrow> requests (fst (main E username))
              = requests (fst (scrape_profile E username))
                @ requests (fst (scrape_read_books E username read_max_pages))
                @ requests (fst (scrape_currently_reading E username
                                   currently_reading_max_pages))
            \<and> snd (main E username)
                = (case snd (scrape_currently_reading E username
                               currently_reading_max_pages) of
                     Inl e \<Rightarrow> Inl e
                   | Inr books \<Rightarrow> Inr ()))"
proof (intro conjI allI impI)
  fix r
  assume "session_get E url = Inr r \<and> \<not> (400 \<le> status_code r \<and> status_code r < 600)"
  then show "\<not> fetch_error E url" and "http_get E url = Inr (parsed_content r)"
    by (simp_all add: fetch_error_def http_get_other_status)
next
  fix i
  assume a0: "1 \<le> i \<and> i \<le> last_page E sh username max_pages
          \<and> fetch_error E (shelf_url sh username i)"
  then obtain m where m: "http_get E (shelf_url sh username i) = Inl (RequestException m)"
    by (auto simp: fetch_error_iff)
  with a0 have a: "1 \<le> i \<and> i \<le> last_page E sh username max_pages
          \<and> http_get E (shelf_url sh username i) = Inl (RequestException m)"
    by simp
  then have f: "fetch_fails E sh username i" and p: "page_raises E sh username i = None"
    and r: "page_records E sh username i = []"
    by (simp_all add: fetch_fails_def page_raises_def page_records_failed)
  from f have "\<not> goes_on E sh username i"
    by (simp add: goes_on_def)
  with a show last: "i = last_page E sh username max_pages"
    by (intro stop_is_last) simp_all
  from scrape_shelf_char [of E sh username max_pages] last a p
  have "snd (scrape_shelf E sh username max_pages)
          = Inr (concat (map (page_records E sh username) [1..i]))"
    by simp
  with a r show "snd (scrape_shelf E sh username max_pages)
                   = Inr (concat (map (page_records E sh username) [1..i - 1]))"
    by (simp add: concat_upto_last)
next
  assume "fetch_error E (get_profile_url username)"
  then obtain m where "http_get E (get_profile_url username) = Inl (RequestException m)"
    by (auto simp: fetch_error_iff)
  then show "scrape_profile E username
               = ([Http_get (get_profile_url username)], Inr empty_profile)"
    by (rule scrape_profile_failed)
next
  fix p bs
  assume a: "snd (scrape_profile E username) = Inr p
          \<and> snd (scrape_read_books E username read_max_pages) = Inr bs"
  then show "requests (fst (main E username))
              = requests (fst (scrape_profile E username))
                @ requests (fst (scrape_read_books E username read_max_pages))
                @ requests (fst (scrape_currently_reading E username
                                   currently_reading_max_pages))"
    by (intro main_requests(1)) simp_all
  from a show "snd (main E username)
                = (case snd (scrape_currently_reading E username
                               currently_reading_max_pages) of
                     Inl e \<Rightarrow> Inl e
                   | Inr books \<Rightarrow> Inr ())"
    by (intro main_requests(2)) simp_all
qed

subsection \<open>Examples of the pager\<close>

lemma last_page_blank_second: "last_page (demo_env web_blank_second) Read_shelf ''ann'' 50 = 2"
  by code_simp

lemma last_page_broken_second: "last_page (demo_env web_broken_second) Read_shelf ''ann'' 50 = 2"
  by code_simp

lemma first_page_records:
  "page_records (demo_env web_blank_second) Read_shelf ''ann'' 1 = [book_paradise]"
  "page_records (demo_env web_broken_second) Read_shelf ''ann'' 1 = [book_paradise]"
  by code_simp+

lemma upto_1_2:
  "[1..2 - 1] = [1::int]" "[1..2] = [1, 2::int]"
  by (simp_all add: upto_rec1 [of 1 2] upto_single)

theorem no_request_after_empty_page_witness:
  "page_has_next (demo_env web_blank_second) Read_shelf ''ann'' 2
   \<and> http_get (demo_env web_blank_second) (get_read_books_url ''ann'' 3)
       = Inr (page_of [row_paradise, next_link])
   \<and> requests (fst (scrape_shelf (demo_env web_blank_second) Read_shelf ''ann'' 50))
       = [get_read_books_url ''ann'' 1, get_read_books_url ''ann'' 2]
   \<and> snd (scrape_shelf (demo_env web_blank_second) Read_shelf ''ann'' 50) = Inr [book_paradise]"
proof -
  let ?E = "demo_env web_blank_second"
  have n: "page_has_next ?E Read_shelf ''ann'' 2"
    by code_simp
  have t: "http_get ?E (get_read_books_url ''ann'' 3) = Inr (page_of [row_paradise, next_link])"
    by code_simp
  have s: "http_get ?E (shelf_url Read_shelf ''ann'' 2) = Inr (page_of [row_untitled, next_link])"
    by code_simp
  have e: "extract_page ?E Read_shelf (snd (locate_entries (page_of [row_untitled, next_link]))) = []"
    by code_simp
  have p: "page_raises ?E Read_shelf ''ann'' 2 = None"
    by code_simp
  note c = no_request_after_empty_page [of ?E Read_shelf "''ann''" 50,
      unfolded last_page_blank_second]
  from c have a: "requests (fst (scrape_shelf ?E Read_shelf ''ann'' 50))
          = map (shelf_url Read_shelf ''ann'') [1..2]"
    by (rule conjunct1)
  from c [THEN conjunct2, rule_format, of 2 "page_of [row_untitled, next_link]"] s e p
  have b: "snd (scrape_shelf ?E Read_shelf ''ann'' 50)
            = Inr (concat (map (page_records ?E Read_shelf ''ann'') [1..2 - 1]))"
    by simp
  from a b n t show ?thesis
    by (simp add: upto_1_2 first_page_records)
qed

theorem pagination_bounded_witness:
  "length (requests (fst (scrape_shelf (demo_env web_endless) Read_shelf ''ann'' 3))) = 3
   \<and> requests (fst (scrape_shelf (demo_env web_broken_second) Read_shelf ''ann'' 50))
       = [get_read_books_url ''ann'' 1, get_read_books_url ''ann'' 2]
   \<and> fetch_fails (demo_env web_broken_second) Read_shelf ''ann'' 2"
proof -
  have 3: "3 \<le> length (requests (fst (scrape_shelf (demo_env web_endless) Read_shelf ''ann'' 3)))"
    by code_simp
  have "length (requests (fst (scrape_shelf (demo_env web_endless) Read_shelf ''ann'' 3))) \<le> nat 3"
    using pagination_bounded [of "demo_env web_endless" Read_shelf "''ann''" 3]
    by (rule conjunct1)
  with 3 have a: "length (requests (fst (scrape_shelf (demo_env web_endless) Read_shelf ''ann'' 3))) = 3"
    by simp
  have f: "fetch_fails (demo_env web_broken_second) Read_shelf ''ann'' 2"
    by code_simp
  note c = pagination_bounded [of "demo_env web_broken_second" Read_shelf "''ann''" 50,
      unfolded last_page_broken_second]
  from c [THEN conjunct2, THEN conjunct1]
  have "requests (fst (scrape_shelf (demo_env web_broken_second) Read_shelf ''ann'' 50))
          = map (shelf_url Read_shelf ''ann'') [1..2]" .
  with a f show ?thesis
    by (simp add: upto_1_2)
qed

text \<open>
  A first page answered with the status 300, which is not a 2xx status: the page is parsed,
  its record is kept, and the second page is requested.
\<close>

theorem status_300_goes_on:
  "session_get (demo_env web_multiple_choices) (get_read_books_url ''ann'' 1)
     = Inr \<lparr>status_code = 300, reason_phrase = ''Multiple Choices'',
             final_url = get_read_books_url ''ann'' 1,
             parsed_content = page_of [row_paradise, next_link]\<rparr>
   \<and> requests (fst (scrape_read_books (demo_env web_multiple_choices) ''ann'' 50))
       = [get_read_books_url ''ann'' 1, get_read_books_url ''ann'' 2]
   \<and> snd (scrape_read_books (demo_env web_multiple_choices) ''ann'' 50)
       = Inr [book_paradise, book_paradise]"
  by code_simp

theorem fetch_failure_is_contained_witness:
  "fetch_error (demo_env web_broken_second) (shelf_url Read_shelf ''ann'' 2)
   \<and> snd (scrape_shelf (demo_env web_broken_second) Read_shelf ''ann'' 50) = Inr [book_paradise]
   \<and> fetch_error (demo_env web_broken_second) (get_profile_url ''ann'')
   \<and> scrape_profile (demo_env web_broken_second) ''ann''
       = ([Http_get (get_profile_url ''ann'')], Inr empty_profile)
   \<and> session_get (demo_env web_broken_second) (get_read_books_url ''ann'' 1)
       = Inr (found (get_read_books_url ''ann'' 1) (page_of [row_paradise, next_link]))
   \<and> http_get (demo_env web_broken_second) (get_read_books_url ''ann'' 1)
       = Inr (page_of [row_paradise, next_link])
   \<and> requests (fst (main (demo_env web_broken_second) ''ann''))
       = [get_profile_url ''ann'', get_read_books_url ''ann'' 1, get_read_books_url ''ann'' 2,
          get_currently_reading_url ''ann'' 1]"
proof -
  let ?E = "demo_env web_broken_second"
  let ?r = "found (get_read_books_url ''ann'' 1) (page_of [row_paradise, next_link])"
  have h: "fetch_error ?E (shelf_url Read_shelf ''ann'' 2)"
    by code_simp
  have g: "fetch_error ?E (get_profile_url ''ann'')"
    by code_simp
  have o: "session_get ?E (get_read_books_url ''ann'' 1) = Inr ?r"
    by code_simp
  have o': "\<not> (400 \<le> status_code ?r \<and> status_code ?r < 600)"
    "parsed_content ?r = page_of [row_paradise, next_link]"
    by (simp_all add: found_def)
  note c = fetch_failure_is_contained [of ?E Read_shelf "''ann''" 50 "get_read_books_url ''ann'' 1",
      unfolded last_page_broken_second]
  from c [THEN conjunct1, rule_format, of 2] h
  have "snd (scrape_shelf ?E Read_shelf ''ann'' 50)
            = Inr (concat (map (page_records ?E Read_shelf ''ann'') [1..2 - 1]))"
    by simp
  then have s: "snd (scrape_shelf ?E Read_shelf ''ann'' 50) = Inr [book_paradise]"
    by (simp add: upto_1_2 first_page_records)
  from c [THEN conjunct2, THEN conjunct1, rule_format, OF g]
  have p: "scrape_profile ?E ''ann'' = ([Http_get (get_profile_url ''ann'')], Inr empty_profile)" .
  from c [THEN conjunct2, THEN conjunct2, THEN conjunct1, rule_format, of ?r] o o'
  have w: "http_get ?E (get_read_books_url ''ann'' 1) = Inr (page_of [row_paradise, next_link])"
    by simp
  have r: "requests (fst (scrape_read_books ?E ''ann'' read_max_pages))
             = [get_read_books_url ''ann'' 1, get_read_books_url ''ann'' 2]"
    by code_simp
  have q: "requests (fst (scrape_currently_reading ?E ''ann'' currently_reading_max_pages))
             = [get_currently_reading_url ''ann'' 1]"
    by code_simp
  from s have s': "snd (scrape_read_books ?E ''ann'' read_max_pages) = Inr [book_paradise]"
    by (simp add: scrape_read_books_def read_max_pages_def)
  from p have p': "snd (scrape_profile ?E ''ann'') = Inr empty_profile"
    by simp
  from c [THEN conjunct2, THEN conjunct2, THEN conjunct2, rule_format,
      of empty_profile "[book_paradise]"] p' s'
  have "requests (fst (main ?E ''ann''))
              = requests (fst (scrape_profile ?E ''ann''))
                @ requests (fst (scrape_read_books ?E ''ann'' read_max_pages))
                @ requests (fst (scrape_currently_reading ?E ''ann'' currently_reading_max_pages))"
    by blast
  with p r q have "requests (fst (main ?E ''ann''))
       = [get_profile_url ''ann'', get_read_books_url ''ann'' 1, get_read_books_url ''ann'' 2,
          get_currently_reading_url ''ann'' 1]"
    by (simp add: requests_def)
  with h s g p o w show ?thesis
    by simp
qed

section \<open>The author ranking: stable and descending\<close>

lemma keys_bump_old: "a \<in> fst ` set kvs \<Longrightarrow> map fst (bump a kvs) = map fst kvs"
  by (induction kvs) (auto simp: rev_image_eqI)

lemma keys_bump_new: "a \<notin> fst ` set kvs \<Longrightarrow> map fst (bump a kvs) = map fst kvs @ [a]"
  by (induction kvs) auto

lemma length_takeWhile_less: "\<exists>x\<in>set xs. \<not> P x \<Longrightarrow> length (takeWhile P xs) < length xs"
  by (induction xs) auto

lemma map_of_bump:
  "map_of (bump a kvs)
     = (map_of kvs)(a \<mapsto> (case map_of kvs a of None \<Rightarrow> 1 | Some n \<Rightarrow> n + 1))"
  by (induction kvs) (auto simp: fun_eq_iff)

lemma author_counts_snoc:
  "author_counts (bs @ [b])
     = (case author b of
          None \<Rightarrow> author_counts bs
        | Some a \<Rightarrow> if a \<noteq> [] then bump a (author_counts bs) else author_counts bs)"
  by (simp add: author_counts_def split: option.splits)

lemma first_seen_old:
  assumes "\<exists>b\<in>set bs. author b = Some a"
  shows "first_seen (bs @ cs) a = first_seen bs a" and "first_seen bs a < length bs"
proof -
  from assms obtain b where b: "b \<in> set bs" "\<not> author b \<noteq> Some a"
    by auto
  then show "first_seen (bs @ cs) a = first_seen bs a"
    by (simp add: first_seen_def takeWhile_append1)
  from b show "first_seen bs a < length bs"
    unfolding first_seen_def by (intro length_takeWhile_less) blast
qed

lemma first_seen_new:
  assumes "\<forall>b\<in>set bs. author b \<noteq> Some a" and "author b = Some a"
  shows "first_seen (bs @ [b]) a = length bs"
  using assms by (simp add: first_seen_def takeWhile_append2)

lemma author_counts_inv:
  "distinct (map fst (author_counts books))
   \<and> fst ` set (author_counts books) = authors_of books
   \<and> (\<forall>a\<in>authors_of books. map_of (author_counts books) a = Some (book_count books a))
   \<and> sorted_wrt (\<lambda>a a'. first_seen books a < first_seen books a') (map fst (author_counts books))"
proof (induction books rule: rev_induct)
  case Nil
  show ?case by (simp add: author_counts_def authors_of_def)
next
  case (snoc b bs)
  let ?ac = "author_counts bs"
  from snoc have d: "distinct (map fst ?ac)" and k: "fst ` set ?ac = authors_of bs"
    and c: "\<forall>a\<in>authors_of bs. map_of ?ac a = Some (book_count bs a)"
    and s: "sorted_wrt (\<lambda>a a'. first_seen bs a < first_seen bs a') (map fst ?ac)"
    by simp_all
  have old: "first_seen (bs @ [b]) a = first_seen bs a \<and> first_seen bs a < length bs"
    if "a \<in> authors_of bs" for a
    using that first_seen_old(1) [of bs a "[b]"] first_seen_old(2) [of bs a]
    by (simp add: authors_of_def)
  have s': "sorted_wrt (\<lambda>a a'. first_seen (bs @ [b]) a < first_seen (bs @ [b]) a') (map fst ?ac)"
  proof -
    have "first_seen (bs @ [b]) x < first_seen (bs @ [b]) y"
      if "x \<in> set (map fst ?ac)" "y \<in> set (map fst ?ac)" "first_seen bs x < first_seen bs y"
      for x y
      using that old [of x] old [of y] k by simp
    then show ?thesis
      using s by (rule sorted_wrt_mono_rel)
  qed
  show ?case
  proof (cases "\<exists>a. author b = Some a \<and> a \<noteq> []")
    case False
    then have same: "author_counts (bs @ [b]) = ?ac"
      by (auto simp: author_counts_snoc split: option.splits)
    from False have au: "authors_of (bs @ [b]) = authors_of bs"
      by (auto simp: authors_of_def)
    from False have "book_count (bs @ [b]) a = book_count bs a" if "a \<in> authors_of bs" for a
      using that by (auto simp: book_count_def authors_of_def)
    with d k c s' show ?thesis
      by (simp add: same au)
  next
    case True
    then obtain a where a: "author b = Some a" "a \<noteq> []"
      by blast
    then have new: "author_counts (bs @ [b]) = bump a ?ac"
      by (simp add: author_counts_snoc)
    from a have au: "authors_of (bs @ [b]) = insert a (authors_of bs)"
      by (auto simp: authors_of_def)
    have cnt: "book_count (bs @ [b]) x = (if x = a then book_count bs a + 1 else book_count bs x)"
      for x
      using a by (simp add: book_count_def)
    have c': "\<forall>x\<in>authors_of (bs @ [b]). map_of (bump a ?ac) x = Some (book_count (bs @ [b]) x)"
    proof
      fix x assume x: "x \<in> authors_of (bs @ [b])"
      show "map_of (bump a ?ac) x = Some (book_count (bs @ [b]) x)"
      proof (cases "x = a")
        case False
        with x au c show ?thesis
          by (simp add: map_of_bump cnt)
      next
        case True
        show ?thesis
        proof (cases "a \<in> authors_of bs")
          case True
          with c \<open>x = a\<close> show ?thesis
            by (simp add: map_of_bump cnt)
        next
          case False
          with k have "map_of ?ac a = None"
            by (simp add: map_of_eq_None_iff)
          moreover from False a have "book_count bs a = 0"
            by (auto simp: authors_of_def book_count_def filter_empty_conv)
          ultimately show ?thesis
            using \<open>x = a\<close> by (simp add: map_of_bump cnt)
        qed
      qed
    qed
    show ?thesis
    proof (cases "a \<in> authors_of bs")
      case True
      with k have keys: "map fst (bump a ?ac) = map fst ?ac"
        by (simp add: keys_bump_old)
      from True have au': "authors_of (bs @ [b]) = authors_of bs"
        using au by auto
      have "set (map fst (bump a ?ac)) = set (map fst ?ac)"
        by (simp only: keys)
      with k have "fst ` set (bump a ?ac) = authors_of bs"
        by simp
      with d s' c' keys show ?thesis
        by (simp add: new au')
    next
      case False
      with k have keys: "map fst (bump a ?ac) = map fst ?ac @ [a]"
        by (simp add: keys_bump_new)
      from False a have fresh: "\<forall>b\<in>set bs. author b \<noteq> Some a"
        by (auto simp: authors_of_def)
      have fs: "first_seen (bs @ [b]) a = length bs"
        using fresh a(1) by (rule first_seen_new)
      have "set (map fst (bump a ?ac)) = set (map fst ?ac @ [a])"
        by (simp only: keys)
      with k have k': "fst ` set (bump a ?ac) = insert a (authors_of bs)"
        by simp
      have d': "distinct (map fst (bump a ?ac))"
        using d False k by (simp add: keys)
      have s'': "sorted_wrt (\<lambda>a a'. first_seen (bs @ [b]) a < first_seen (bs @ [b]) a')
                   (map fst (bump a ?ac))"
      proof -
        have "first_seen (bs @ [b]) x < first_seen (bs @ [b]) a" if "x \<in> set (map fst ?ac)" for x
        proof -
          from that k have "x \<in> authors_of bs" by simp
          from old [OF this] fs show ?thesis by simp
        qed
        with s' show ?thesis
          by (simp only: keys sorted_wrt_append) simp
      qed
      from d' k' c' s'' show ?thesis
        by (simp add: new au)
    qed
  qed
qed


lemma sorted_wrt_filter_nth:
  assumes "sorted_wrt R (filter P xs)" and "i < j" and "j < length xs"
    and "P (xs ! i)" and "P (xs ! j)"
  shows "R (xs ! i) (xs ! j)"
proof -
  from assms(2,3) have i: "i < length xs" by simp
  then have split: "xs = take i xs @ xs ! i # drop (Suc i) xs"
    by (rule id_take_nth_drop)
  have "filter P xs = filter P (take i xs) @ xs ! i # filter P (drop (Suc i) xs)"
    using assms(4) by (subst split) simp
  with assms(1) have "\<forall>y\<in>set (filter P (drop (Suc i) xs)). R (xs ! i) y"
    by (simp add: sorted_wrt_append)
  moreover have "xs ! j \<in> set (drop (Suc i) xs)"
  proof -
    from assms(2,3) have "drop (Suc i) xs ! (j - Suc i) = xs ! j"
      and "j - Suc i < length (drop (Suc i) xs)"
      by simp_all
    then show ?thesis
      by (metis nth_mem)
  qed
  ultimately show ?thesis
    using assms(5) by simp
qed

lemma author_counts_entry:
  assumes "x \<in> set (author_counts books)"
  shows "fst x \<in> authors_of books \<and> snd x = book_count books (fst x)"
proof -
  from author_counts_inv [of books] have d: "distinct (map fst (author_counts books))"
    and k: "fst ` set (author_counts books) = authors_of books"
    and c: "\<forall>a\<in>authors_of books. map_of (author_counts books) a = Some (book_count books a)"
    by simp_all
  from assms k have a: "fst x \<in> authors_of books"
    by auto
  from assms have "(fst x, snd x) \<in> set (author_counts books)"
    by simp
  with d have "map_of (author_counts books) (fst x) = Some (snd x)"
    by (simp only: map_of_eq_Some_iff)
  with a c show ?thesis by simp
qed

text \<open>
  Claim C9. The author ranking of the summary lists at most 10 authors, in descending
  order of their number of books; two listed authors with the same number of books are
  in the order in which their first records occur in the sequence. Each listed author has
  a name that is not empty and is listed once, with the number of its records; an author
  that is not listed has no more books than any listed one, and then ten are listed. The
  lines printed are the heading and one line per listed author, or nothing when no record
  has an author.
\<close>

theorem top_authors_ranking:
  "length (sorted_authors books) \<le> 10
   \<and> sorted_wrt (\<lambda>x y. snd y \<le> snd x) (sorted_authors books)
   \<and> (\<forall>i j. i < j \<and> j < length (sorted_authors books)
          \<and> snd (sorted_authors books ! i) = snd (sorted_authors books ! j)
        \<longrightarrow> first_seen books (fst (sorted_authors books ! i))
              < first_seen books (fst (sorted_authors books ! j)))
   \<and> distinct (map fst (sorted_authors books))
   \<and> (\<forall>x\<in>set (sorted_authors books).
         fst x \<in> authors_of books \<and> snd x = book_count books (fst x))
   \<and> (\<forall>a\<in>authors_of books. a \<notin> fst ` set (sorted_authors books) \<longrightarrow>
         length (sorted_authors books) = 10
         \<and> (\<forall>x\<in>set (sorted_authors books). book_count books a \<le> snd x))
   \<and> print_top_authors books
       = (if authors_of books = {} then []
          else Print (CHR 0x0A # ''Top authors:'')
                 # map (\<lambda>(a, n). Print (''  '' @ a @ '': '' @ str_int n @ '' books''))
                     (sorted_authors books))"
proof -
  let ?f = "\<lambda>x :: string \<times> int. - snd x"
  let ?ac = "author_counts books"
  let ?S = "sort_key ?f ?ac"
  let ?r = "sorted_authors books"
  let ?R = "\<lambda>x y :: string \<times> int. first_seen books (fst x) < first_seen books (fst y)"
  have r: "?r = take 10 ?S"
    by (simp add: sorted_authors_def)
  from author_counts_inv [of books] have d: "distinct (map fst ?ac)"
    and k: "fst ` set ?ac = authors_of books"
    and s: "sorted_wrt ?R ?ac"
    by (simp_all add: sorted_wrt_map)
  have setS: "set ?S = set ?ac"
    by simp
  have 1: "length ?r \<le> 10"
    by (simp add: r)
  have desc: "sorted_wrt (\<lambda>x y. snd y \<le> snd x) ?S"
    using sorted_sort_key [of ?f ?ac] by (simp add: sorted_map)
  then have 2: "sorted_wrt (\<lambda>x y. snd y \<le> snd x) ?r"
    unfolding r by (rule sorted_wrt_take)
  have 3: "first_seen books (fst (?r ! i)) < first_seen books (fst (?r ! j))"
    if "i < j \<and> j < length ?r \<and> snd (?r ! i) = snd (?r ! j)" for i j
  proof -
    from that have i: "i < j" and j: "j < length ?r" and e: "snd (?r ! i) = snd (?r ! j)"
      by simp_all
    from j have jS: "j < length ?S" and j10: "j < 10"
      by (simp_all add: r)
    from i j10 jS have ni: "?r ! i = ?S ! i" and nj: "?r ! j = ?S ! j"
      by (simp_all add: r)
    let ?P = "\<lambda>y. ?f y = ?f (?S ! j)"
    have "filter ?P ?S = filter ?P ?ac"
      by (rule sort_key_stable)
    with s have sw: "sorted_wrt ?R (filter ?P ?S)"
      by (simp add: sorted_wrt_filter)
    from e have Pi: "?P (?S ! i)"
      by (simp add: ni nj)
    have Pj: "?P (?S ! j)"
      by simp
    have "?R (?S ! i) (?S ! j)"
      using sw i jS Pi Pj by (rule sorted_wrt_filter_nth)
    then show ?thesis
      by (simp add: ni nj)
  qed
  have "distinct (map fst ?S)"
    using d by (simp add: distinct_map)
  then have 4: "distinct (map fst ?r)"
    unfolding r by (simp add: take_map [symmetric])
  have sub: "set ?r \<subseteq> set ?ac"
    unfolding r using set_take_subset [of 10 ?S] by simp
  have 5: "\<forall>x\<in>set ?r. fst x \<in> authors_of books \<and> snd x = book_count books (fst x)"
    using sub author_counts_entry [of _ books] by blast
  have 6: "length ?r = 10 \<and> (\<forall>x\<in>set ?r. book_count books a \<le> snd x)"
    if a: "a \<in> authors_of books" and out: "a \<notin> fst ` set ?r" for a
  proof -
    from a k have "a \<in> fst ` set ?ac"
      by simp
    then obtain y where y: "y \<in> set ?ac" "fst y = a"
      by (auto simp: image_iff)
    with author_counts_entry [of y books] have cnt: "snd y = book_count books a"
      by simp
    from y out have "y \<notin> set (take 10 ?S)"
      unfolding r by force
    moreover have "set ?S = set (take 10 ?S) \<union> set (drop 10 ?S)"
      by (metis append_take_drop_id set_append)
    ultimately have late: "y \<in> set (drop 10 ?S)"
      using y(1) setS by blast
    then have "drop 10 ?S \<noteq> []"
      by auto
    then have len: "length ?r = 10"
      by (simp add: r)
    from desc have "sorted_wrt (\<lambda>x y. snd y \<le> snd x) (take 10 ?S @ drop 10 ?S)"
      by simp
    then have "\<forall>x\<in>set (take 10 ?S). \<forall>z\<in>set (drop 10 ?S). snd z \<le> snd x"
      by (simp only: sorted_wrt_append) blast
    with late cnt have "\<forall>x\<in>set ?r. book_count books a \<le> snd x"
      unfolding r by force
    with len show ?thesis by simp
  qed
  have empty: "(?ac = []) = (authors_of books = {})"
    using k by auto
  have 7: "print_top_authors books
       = (if authors_of books = {} then []
          else Print (CHR 0x0A # ''Top authors:'')
                 # map (\<lambda>(a, n). Print (''  '' @ a @ '': '' @ str_int n @ '' books'')) ?r)"
  proof (cases "books = []")
    case True
    then show ?thesis
      by (simp add: print_top_authors_def authors_of_def)
  next
    case False
    with empty show ?thesis
      by (simp add: print_top_authors_def)
  qed
  from 1 2 3 4 5 6 7 show ?thesis
    by blast
qed

theorem top_authors_ranking_witness:
  "sorted_authors shelf_of_three = [(''Austen'', 2), (''Eliot'', 2), (''Woolf'', 1)]
   \<and> first_seen shelf_of_three ''Austen'' < first_seen shelf_of_three ''Eliot''"
proof -
  have v: "sorted_authors shelf_of_three = [(''Austen'', 2), (''Eliot'', 2), (''Woolf'', 1)]"
    by code_simp
  note c = top_authors_ranking [of shelf_of_three, unfolded v]
  from c have "\<forall>i j. i < j \<and> j < length [(''Austen'', 2::int), (''Eliot'', 2), (''Woolf'', 1)]
          \<and> snd ([(''Austen'', 2::int), (''Eliot'', 2), (''Woolf'', 1)] ! i)
              = snd ([(''Austen'', 2::int), (''Eliot'', 2), (''Woolf'', 1)] ! j)
        \<longrightarrow> first_seen shelf_of_three (fst ([(''Austen'', 2::int), (''Eliot'', 2), (''Woolf'', 1)] ! i))
              < first_seen shelf_of_three (fst ([(''Austen'', 2::int), (''Eliot'', 2), (''Woolf'', 1)] ! j))"
    by blast
  from this [rule_format, of 0 1] have "first_seen shelf_of_three ''Austen'' < first_seen shelf_of_three ''Eliot''"
    by simp
  with v show ?thesis by simp
qed

section \<open>Every exported row has its book's address\<close>














end
